theory Spec2Isabelle
  imports Complex_Main
begin

section \<open>Errors and results\<close>

text \<open>
  The Python exceptions that the modelled code can raise.  A computation that may
  raise returns \<open>error + 'a\<close>, with \<open>Inl\<close> for the raised exception.
\<close>

datatype error =
    ValueError | ZeroDivisionError | RuntimeError | IndexError | TypeError
  | FileNotFoundError | OverflowError

definition bind_res :: "error + 'a \<Rightarrow> ('a \<Rightarrow> error + 'b) \<Rightarrow> error + 'b" where
  "bind_res r f = (case r of Inl e \<Rightarrow> Inl e | Inr v \<Rightarrow> f v)"

section \<open>Stats records (toch/base\_classifier.py)\<close>

text \<open>
  The evaluation metrics are finite numbers and are modelled as reals: the claims about
  them concern their order and arithmetic, not rounding.  A loss is whatever the
  criterion yields, so it may also be infinite or not a number; losses are Python
  floats with these special values.  Sums and quotients of finite values are taken
  exactly.  Every comparison with NaN is false.
\<close>

datatype pyfloat = Finite real | PosInf | NegInf | NaN

fun float_lt :: "pyfloat \<Rightarrow> pyfloat \<Rightarrow> bool" where
  "float_lt (Finite x) (Finite y) \<longleftrightarrow> x < y"
| "float_lt (Finite x) PosInf \<longleftrightarrow> True"
| "float_lt NegInf (Finite y) \<longleftrightarrow> True"
| "float_lt NegInf PosInf \<longleftrightarrow> True"
| "float_lt a b \<longleftrightarrow> False"

fun float_add :: "pyfloat \<Rightarrow> pyfloat \<Rightarrow> pyfloat" where
  "float_add (Finite x) (Finite y) = Finite (x + y)"
| "float_add NaN b = NaN"
| "float_add a NaN = NaN"
| "float_add PosInf NegInf = NaN"
| "float_add NegInf PosInf = NaN"
| "float_add PosInf b = PosInf"
| "float_add a PosInf = PosInf"
| "float_add NegInf b = NegInf"
| "float_add a NegInf = NegInf"

text \<open>The quotient of a float by a positive integer.\<close>

fun float_div_nat :: "pyfloat \<Rightarrow> nat \<Rightarrow> pyfloat" where
  "float_div_nat (Finite x) n = Finite (x / real n)"
| "float_div_nat a n = a"

record EpochStats =
  epoch :: nat
  train_loss :: pyfloat
  test_loss :: pyfloat

record TrainStats =
  best_epoch :: nat
  epoch_stats :: "EpochStats list"
  start_time :: int
  end_time :: int

record EvaluationStats =
  accuracy :: real
  precision :: real
  recall :: real
  f1 :: real
  auc :: real
  mcc :: real

record KFoldStats =
  max_accuracy :: real
  min_accuracy :: real
  mean_accuracy :: real
  std_accuracy :: real
  max_precision :: real
  min_precision :: real
  mean_precision :: real
  std_precision :: real
  max_recall :: real
  min_recall :: real
  mean_recall :: real
  std_recall :: real
  max_f1 :: real
  min_f1 :: real
  mean_f1 :: real
  std_f1 :: real
  max_auc :: real
  min_auc :: real
  mean_auc :: real
  std_auc :: real
  max_mcc :: real
  min_mcc :: real
  mean_mcc :: real
  std_mcc :: real
  fold_stats :: "EvaluationStats list"

subsection \<open>The reductions used by \<open>KFoldStats.__init__\<close>\<close>

text \<open>
  Python's built-in \<open>max\<close> and \<open>min\<close> raise ValueError on an empty sequence;
  otherwise they scan from the left and replace the candidate only by a strictly
  greater (smaller) item.
\<close>

fun py_max :: "real list \<Rightarrow> error + real" where
  "py_max [] = Inl ValueError"
| "py_max (x # xs) = Inr (foldl (\<lambda>m y. if y > m then y else m) x xs)"

fun py_min :: "real list \<Rightarrow> error + real" where
  "py_min [] = Inl ValueError"
| "py_min (x # xs) = Inr (foldl (\<lambda>m y. if y < m then y else m) x xs)"

text \<open>
  \<open>np.mean\<close> is the sum divided by the number of items and \<open>np.std\<close> (with the
  default \<open>ddof = 0\<close>) is \<open>sqrt(mean(abs(x - x.mean()) ** 2))\<close>.  On an empty list
  numpy returns nan with a warning; \<open>KFoldStats.__init__\<close> never gets there, because
  \<open>max\<close> has raised before.
\<close>

definition np_mean :: "real list \<Rightarrow> real" where
  "np_mean xs = sum_list xs / real (length xs)"

definition np_std :: "real list \<Rightarrow> real" where
  "np_std xs = sqrt (np_mean (map (\<lambda>x. \<bar>x - np_mean xs\<bar> ^ 2) xs))"

text \<open>
  The four statements that \<open>KFoldStats.__init__\<close> runs for one metric, in their
  order: max, min, mean, std of the list of that metric over the folds.
\<close>

definition metric_summary :: "real list \<Rightarrow> error + (real \<times> real \<times> real \<times> real)" where
  "metric_summary xs =
     bind_res (py_max xs) (\<lambda>mx.
     bind_res (py_min xs) (\<lambda>mn.
     Inr (mx, mn, np_mean xs, np_std xs)))"

definition KFoldStats_init :: "EvaluationStats list \<Rightarrow> error + KFoldStats" where
  "KFoldStats_init fs =
     bind_res (metric_summary (map accuracy fs)) (\<lambda>(max_a, min_a, mean_a, std_a).
     bind_res (metric_summary (map precision fs)) (\<lambda>(max_p, min_p, mean_p, std_p).
     bind_res (metric_summary (map recall fs)) (\<lambda>(max_r, min_r, mean_r, std_r).
     bind_res (metric_summary (map f1 fs)) (\<lambda>(max_f, min_f, mean_f, std_f).
     bind_res (metric_summary (map auc fs)) (\<lambda>(max_u, min_u, mean_u, std_u).
     bind_res (metric_summary (map mcc fs)) (\<lambda>(max_m, min_m, mean_m, std_m).
     Inr \<lparr> max_accuracy = max_a, min_accuracy = min_a,
           mean_accuracy = mean_a, std_accuracy = std_a,
           max_precision = max_p, min_precision = min_p,
           mean_precision = mean_p, std_precision = std_p,
           max_recall = max_r, min_recall = min_r,
           mean_recall = mean_r, std_recall = std_r,
           max_f1 = max_f, min_f1 = min_f, mean_f1 = mean_f, std_f1 = std_f,
           max_auc = max_u, min_auc = min_u, mean_auc = mean_u, std_auc = std_u,
           max_mcc = max_m, min_mcc = min_m, mean_mcc = mean_m, std_mcc = std_m,
           fold_stats = fs \<rparr>))))))"

text \<open>
  The reductions as the specification names them: greatest and least element,
  arithmetic mean, population standard deviation.
\<close>

definition population_std :: "real list \<Rightarrow> real" where
  "population_std xs =
     sqrt ((\<Sum>x\<leftarrow>xs. (x - sum_list xs / real (length xs)) ^ 2) / real (length xs))"

definition reduces_to :: "real list \<Rightarrow> real \<Rightarrow> real \<Rightarrow> real \<Rightarrow> real \<Rightarrow> bool" where
  "reduces_to xs mx mn mean sd \<longleftrightarrow>
     mx = Max (set xs) \<and> mn = Min (set xs) \<and>
     mean = sum_list xs / real (length xs) \<and> sd = population_std xs"

subsection \<open>Two concrete folds\<close>

definition fold_a :: EvaluationStats where
  "fold_a = \<lparr> accuracy = 0, precision = 0, recall = 0, f1 = 0, auc = 0, mcc = 0 \<rparr>"

definition fold_b :: EvaluationStats where
  "fold_b = \<lparr> accuracy = 1, precision = 1, recall = 1, f1 = 1, auc = 1, mcc = 1 \<rparr>"

section \<open>Tensor shapes and the structural extractor (toch/extractors/structural\_extractor.py)\<close>

text \<open>
  The extractor is followed at the level of tensor shapes.  A shape is the list of
  dimension sizes.  The torch layers act on shapes as their documentation states:
  with stride 1, no padding and no dilation a \<open>Conv2d\<close> with a square kernel of size
  \<open>k\<close> maps \<open>(N, C_in, H, W)\<close> to \<open>(N, C_out, H - k + 1, W - k + 1)\<close>; a
  \<open>MaxPool2d\<close> with kernel \<open>k\<close> and stride \<open>s\<close> (floor mode, no padding) maps
  \<open>(N, C, H, W)\<close> to \<open>(N, C, (H - k) div s + 1, (W - k) div s + 1)\<close>; \<open>ReLU\<close>
  keeps the shape; \<open>Flatten\<close> keeps the first dimension and multiplies the others.
  A channel mismatch or an input smaller than the kernel is a RuntimeError.  Only
  batched (4-dimensional) inputs of the 2D layers are modelled.
\<close>

type_synonym shape = "nat list"

datatype layer =
    Conv2d nat nat nat
  | MaxPool2d nat nat
  | ReLU
  | Flatten

fun layer_shape :: "layer \<Rightarrow> shape \<Rightarrow> error + shape" where
  "layer_shape (Conv2d c_in c_out k) [n, c, h, w] =
     (if c = c_in \<and> 0 < k \<and> k \<le> h \<and> k \<le> w
      then Inr [n, c_out, h - k + 1, w - k + 1] else Inl RuntimeError)"
| "layer_shape (Conv2d c_in c_out k) s = Inl RuntimeError"
| "layer_shape (MaxPool2d k st) [n, c, h, w] =
     (if 0 < k \<and> 0 < st \<and> k \<le> h \<and> k \<le> w
      then Inr [n, c, (h - k) div st + 1, (w - k) div st + 1] else Inl RuntimeError)"
| "layer_shape (MaxPool2d k st) s = Inl RuntimeError"
| "layer_shape ReLU s = Inr s"
| "layer_shape Flatten [] = Inl RuntimeError"
| "layer_shape Flatten (n # rest) = Inr [n, prod_list rest]"

text \<open>\<open>x.unsqueeze(1)\<close>: a new dimension of size 1 at position 1.\<close>

fun unsqueeze1 :: "shape \<Rightarrow> error + shape" where
  "unsqueeze1 [] = Inl IndexError"
| "unsqueeze1 (n # rest) = Inr (n # 1 # rest)"

text \<open>
  \<open>StructuralExtractorConfig.__init__(**kwargs)\<close> takes any keyword arguments and
  stores nothing.
\<close>

datatype StructuralExtractorConfig = StructuralExtractorConfig

definition StructuralExtractorConfig_init :: "(string \<times> string) list \<Rightarrow> StructuralExtractorConfig" where
  "StructuralExtractorConfig_init kwargs = StructuralExtractorConfig"

record StructuralExtractor =
  relu :: layer
  conv1 :: layer
  pool1 :: layer
  conv2 :: layer
  pool2 :: layer
  conv3 :: layer
  pool3 :: layer
  flatten :: layer

definition StructuralExtractor_init :: "StructuralExtractorConfig \<Rightarrow> StructuralExtractor" where
  "StructuralExtractor_init config =
     \<lparr> relu = ReLU,
       conv1 = Conv2d 1 32 2,
       pool1 = MaxPool2d 2 2,
       conv2 = Conv2d 32 32 2,
       pool2 = MaxPool2d 2 2,
       conv3 = Conv2d 32 64 3,
       pool3 = MaxPool2d 3 3,
       flatten = Flatten \<rparr>"

definition StructuralExtractor_build_from_config :: "(string \<times> string) list \<Rightarrow> StructuralExtractor" where
  "StructuralExtractor_build_from_config params =
     StructuralExtractor_init (StructuralExtractorConfig_init params)"

text \<open>The shape of \<open>StructuralExtractor.forward(x)\<close> for a character matrix of shape \<open>s\<close>.\<close>

definition StructuralExtractor_forward :: "StructuralExtractor \<Rightarrow> shape \<Rightarrow> error + shape" where
  "StructuralExtractor_forward m s =
     bind_res (unsqueeze1 s) (\<lambda>x.
     bind_res (layer_shape (conv1 m) x) (\<lambda>x.
     bind_res (layer_shape (relu m) x) (\<lambda>x.
     bind_res (layer_shape (pool1 m) x) (\<lambda>x.
     bind_res (layer_shape (conv2 m) x) (\<lambda>x.
     bind_res (layer_shape (relu m) x) (\<lambda>x.
     bind_res (layer_shape (pool2 m) x) (\<lambda>x.
     bind_res (layer_shape (conv3 m) x) (\<lambda>x.
     bind_res (layer_shape (relu m) x) (\<lambda>x.
     bind_res (layer_shape (pool3 m) x) (\<lambda>x.
     layer_shape (flatten m) x))))))))))"

section \<open>The Bert embedding layer (models/extractors/semantic\_extractor.py)\<close>











section \<open>The defaults of the TrainStats class\<close>

text \<open>
  \<open>start_time: int = int(time())\<close> and \<open>end_time: int = int(time())\<close> are evaluated
  when the class body is executed; the two values become the defaults of the
  generated constructor.  \<open>int\<close> truncates towards zero.
\<close>

definition py_int :: "real \<Rightarrow> int" where
  "py_int t = (if 0 \<le> t then \<lfloor>t\<rfloor> else \<lceil>t\<rceil>)"

record TrainStats_class =
  default_start_time :: int
  default_end_time :: int

definition TrainStats_classdef :: "real \<Rightarrow> real \<Rightarrow> TrainStats_class" where
  "TrainStats_classdef t1 t2 =
     \<lparr> default_start_time = py_int t1, default_end_time = py_int t2 \<rparr>"

text \<open>
  The generated \<open>__init__(best_epoch, epoch_stats, start_time=..., end_time=...)\<close>.
  \<open>now\<close> is the wall-clock time at which the constructor is called; the constructor
  does not read the clock.
\<close>

definition TrainStats_init ::
  "TrainStats_class \<Rightarrow> real \<Rightarrow> nat \<Rightarrow> EpochStats list \<Rightarrow> int option \<Rightarrow> int option \<Rightarrow> TrainStats" where
  "TrainStats_init cls now b es st et =
     \<lparr> best_epoch = b, epoch_stats = es,
       start_time = (case st of None \<Rightarrow> default_start_time cls | Some t \<Rightarrow> t),
       end_time = (case et of None \<Rightarrow> default_end_time cls | Some t \<Rightarrow> t) \<rparr>"

text \<open>\<open>TrainStats.to_json\<close> refreshes \<open>end_time\<close> before it dumps the fields.\<close>

definition TrainStats_to_json :: "real \<Rightarrow> TrainStats \<Rightarrow> TrainStats" where
  "TrainStats_to_json now ts = ts\<lparr>end_time := py_int now\<rparr>"

subsection \<open>A small embedding layer\<close>


section \<open>The classifier (toch/base\_classifier.py)\<close>

subsection \<open>Models, data, files\<close>

text \<open>
  A model's \<open>state_dict\<close> lists its named parameter tensors (their values flattened).
  A module is its parameter state and its mode (\<open>train()\<close> / \<open>eval()\<close>).  A dataset
  is a list of samples, a sample an input with its score; a batch is the list of
  samples collated into it, a loader the list of its batches (\<open>len(loader)\<close> is the
  number of batches).
\<close>

type_synonym state_dict = "(string \<times> real list) list"

record module =
  params :: state_dict
  training :: bool

type_synonym 'a sample = "'a \<times> real"
type_synonym 'a dataset = "'a sample list"
type_synonym 'a batch = "'a sample list"
type_synonym 'a loader = "'a batch list"

text \<open>
  The files the classifier writes below \<open>store_dir\<close>.  The timestamp that \<open>store\<close>
  puts into the default file names is left out of the path.  The disk is the list of
  the writes in the order they happened; reading a path yields the last write to it.
\<close>

datatype path =
    ModelPath
  | ModelEpochPath nat
  | BestModelPath
  | TrainStatsPath
  | KFoldStatsPath
  | UserPath string

datatype file_content =
    Checkpoint state_dict
  | TrainStatsJson TrainStats
  | KFoldStatsJson KFoldStats

definition read_file :: "(path \<times> file_content) list \<Rightarrow> path \<Rightarrow> file_content option" where
  "read_file d p = map_of (rev d) p"

text \<open>
  What the classifier takes from torch and from the concrete model class, given as
  functions: the forward pass (of the parameters, the mode and the batch inputs, one
  output per sample), the loss value \<open>criterion(outputs, y).item()\<close> (a float that
  may be infinite or NaN), the effect of
  \<open>loss.backward(); optimizer.step()\<close> on the parameters and the optimizer state,
  \<open>build_from_config()\<close> (a fresh initialisation, drawing from the random state), the
  state of a newly constructed optimizer, and the \<open>TrainStats\<close> class object.
  These functions are total: a failing batch (a shape mismatch, a device error) is not
  modelled.
\<close>

record ('a, 'os, 's) runtime =
  forward :: "state_dict \<Rightarrow> bool \<Rightarrow> 'a list \<Rightarrow> real list"
  criterion :: "real list \<Rightarrow> real list \<Rightarrow> pyfloat"
  optimizer_step :: "state_dict \<Rightarrow> 'os \<Rightarrow> 'a list \<Rightarrow> real list \<Rightarrow> state_dict \<times> 'os"
  build_from_config :: "'s \<Rightarrow> state_dict \<times> 's"
  new_optimizer :: "state_dict \<Rightarrow> real \<Rightarrow> 'os"
  TrainStats_cls :: TrainStats_class

text \<open>
  The attributes of a \<open>BaseClassifier\<close>, together with the part of the world its
  methods act on: the disk, the random state and the clock reading.  An optimizer is
  represented by its state dict, so \<open>optimizer.load_state_dict(sd)\<close> yields \<open>sd\<close>.
\<close>

record ('a, 'os, 's) classifier =
  model :: module
  optimizer :: 'os
  initial_optimizer_state_dict :: 'os
  train_dataset :: "'a dataset option"
  test_dataset :: "'a dataset option"
  train_loader :: "'a loader option"
  val_loader :: "'a loader option"
  test_loader :: "'a loader option"
  batch_size :: nat
  num_epochs :: nat
  learning_rate :: real
  disk :: "(path \<times> file_content) list"
  seed :: 's
  now :: real

definition optimizer_load_state_dict :: "'os \<Rightarrow> 'os \<Rightarrow> 'os" where
  "optimizer_load_state_dict opt sd = sd"

definition module_call :: "('a, 'os, 's) runtime \<Rightarrow> module \<Rightarrow> 'a list \<Rightarrow> real list" where
  "module_call R m xs = forward R (params m) (training m) xs"

definition batch_to_input :: "'a batch \<Rightarrow> 'a list" where
  "batch_to_input batch = map fst batch"

definition batch_to_score :: "'a batch \<Rightarrow> real list" where
  "batch_to_score batch = map snd batch"

subsection \<open>store and load\<close>

definition store ::
  "path option \<Rightarrow> nat option \<Rightarrow> ('a, 'os, 's) classifier \<Rightarrow> ('a, 'os, 's) classifier" where
  "store path_arg epoch_arg c =
     (let p = (case path_arg of
                 Some p \<Rightarrow> p
               | None \<Rightarrow> (case epoch_arg of None \<Rightarrow> ModelPath | Some e \<Rightarrow> ModelEpochPath e))
      in c\<lparr>disk := disk c @ [(p, Checkpoint (params (model c)))]\<rparr>)"

text \<open>
  \<open>load_state_dict\<close> is strict: the keys of the given state dict must be the keys of
  the module and each tensor must have the size of the parameter it replaces,
  otherwise RuntimeError.  Each parameter of the module is overwritten with the value
  stored under its name.
\<close>

definition load_state_dict :: "module \<Rightarrow> state_dict \<Rightarrow> error + module" where
  "load_state_dict m sd =
     (if set (map fst sd) = set (map fst (params m)) \<and>
         (\<forall>(k, v) \<in> set (params m). map_option length (map_of sd k) = Some (length v))
      then Inr (m\<lparr>params := map (\<lambda>(k, v). (k, the (map_of sd k))) (params m)\<rparr>)
      else Inl RuntimeError)"

definition load ::
  "path \<Rightarrow> ('a, 'os, 's) classifier \<Rightarrow> (error + unit) \<times> ('a, 'os, 's) classifier" where
  "load p c =
     (case read_file (disk c) p of
        None \<Rightarrow> (Inl FileNotFoundError, c)
      | Some (Checkpoint sd) \<Rightarrow>
          (case load_state_dict (model c) sd of
             Inl e \<Rightarrow> (Inl e, c)
           | Inr m \<Rightarrow> (Inr (), c\<lparr>model := m\<rparr>))
      | Some _ \<Rightarrow> (Inl RuntimeError, c))"

text \<open>
  Two modules have the same architecture when they have the same parameter names, in
  the same order, with the same sizes.
\<close>

definition same_architecture :: "module \<Rightarrow> module \<Rightarrow> bool" where
  "same_architecture m1 m2 \<longleftrightarrow>
     map fst (params m2) = map fst (params m1) \<and>
     map (\<lambda>p. length (snd p)) (params m2) = map (\<lambda>p. length (snd p)) (params m1)"

subsection \<open>One epoch\<close>

definition fit_batch ::
  "('a, 'os, 's) runtime \<Rightarrow> ('a, 'os, 's) classifier \<Rightarrow> 'a list \<Rightarrow> real list
     \<Rightarrow> pyfloat \<times> ('a, 'os, 's) classifier" where
  "fit_batch R c x_batch y_batch =
     (let outputs = module_call R (model c) x_batch;
          loss = criterion R outputs y_batch;
          (p, os) = optimizer_step R (params (model c)) (optimizer c) x_batch y_batch
      in (loss, c\<lparr>model := (model c)\<lparr>params := p\<rparr>, optimizer := os\<rparr>))"

definition val_batch ::
  "('a, 'os, 's) runtime \<Rightarrow> ('a, 'os, 's) classifier \<Rightarrow> 'a list \<Rightarrow> real list \<Rightarrow> pyfloat" where
  "val_batch R c x_batch y_batch =
     (let outputs = module_call R (model c) x_batch in criterion R outputs y_batch)"

fun fit_batches ::
  "('a, 'os, 's) runtime \<Rightarrow> 'a loader \<Rightarrow> pyfloat \<Rightarrow> ('a, 'os, 's) classifier
     \<Rightarrow> pyfloat \<times> ('a, 'os, 's) classifier" where
  "fit_batches R [] running_loss c = (running_loss, c)"
| "fit_batches R (batch # rest) running_loss c =
     (let (loss, c1) = fit_batch R c (batch_to_input batch) (batch_to_score batch)
      in fit_batches R rest (float_add running_loss loss) c1)"

fun val_batches ::
  "('a, 'os, 's) runtime \<Rightarrow> 'a loader \<Rightarrow> pyfloat \<Rightarrow> ('a, 'os, 's) classifier \<Rightarrow> pyfloat" where
  "val_batches R [] running_val_loss c = running_val_loss"
| "val_batches R (batch # rest) running_val_loss c =
     val_batches R rest
       (float_add running_val_loss
          (val_batch R c (batch_to_input batch) (batch_to_score batch))) c"

text \<open>
  \<open>_fit_epoch\<close> and \<open>_val_epoch\<close>: the mode is set, the batch losses are summed and
  the sum is divided by \<open>len(loader)\<close>; dividing a float by the integer 0 raises
  ZeroDivisionError.  Iterating over a loader that is \<open>None\<close> raises TypeError.
\<close>

definition fit_epoch ::
  "('a, 'os, 's) runtime \<Rightarrow> ('a, 'os, 's) classifier
     \<Rightarrow> (error + pyfloat) \<times> ('a, 'os, 's) classifier" where
  "fit_epoch R c =
     (let c1 = c\<lparr>model := (model c)\<lparr>training := True\<rparr>\<rparr> in
      case train_loader c1 of
        None \<Rightarrow> (Inl TypeError, c1)
      | Some loader \<Rightarrow>
          (let (running_loss, c2) = fit_batches R loader (Finite 0) c1 in
           if length loader = 0 then (Inl ZeroDivisionError, c2)
           else (Inr (float_div_nat running_loss (length loader)), c2)))"

definition val_epoch ::
  "('a, 'os, 's) runtime \<Rightarrow> ('a, 'os, 's) classifier
     \<Rightarrow> (error + pyfloat) \<times> ('a, 'os, 's) classifier" where
  "val_epoch R c =
     (let c1 = c\<lparr>model := (model c)\<lparr>training := False\<rparr>\<rparr> in
      case val_loader c1 of
        None \<Rightarrow> (Inl TypeError, c1)
      | Some loader \<Rightarrow>
          (let running_val_loss = val_batches R loader (Finite 0) c1 in
           if length loader = 0 then (Inl ZeroDivisionError, c1)
           else (Inr (float_div_nat running_val_loss (length loader)), c1)))"

subsection \<open>fit\<close>

text \<open>
  The test \<open>val_loss < best_val_set\<close>; \<open>best_val_set\<close> starts as
  \<open>float("inf")\<close>.
\<close>

definition below_best :: "pyfloat \<Rightarrow> pyfloat \<Rightarrow> bool" where
  "below_best v_loss best_val_set = float_lt v_loss best_val_set"

text \<open>
  The log line of each epoch prints \<open>math.exp(train_loss)\<close> and
  \<open>math.exp(val_loss)\<close>.  \<open>math.exp\<close> raises OverflowError when the result for
  a finite argument exceeds the largest float, that is for finite arguments above
  about 709.78; for an infinite argument or NaN it raises nothing.
\<close>

definition exp_overflow_bound :: real where
  "exp_overflow_bound = 709.782712893384"

definition math_exp_overflows :: "pyfloat \<Rightarrow> bool" where
  "math_exp_overflows a = (case a of Finite x \<Rightarrow> exp_overflow_bound < x | _ \<Rightarrow> False)"

text \<open>The body of \<open>for epoch in range(self.num_epochs)\<close>, over the remaining epochs.\<close>

fun fit_epochs ::
  "('a, 'os, 's) runtime \<Rightarrow> nat list \<Rightarrow> TrainStats \<Rightarrow> pyfloat
     \<Rightarrow> ('a, 'os, 's) classifier \<Rightarrow> (error + TrainStats) \<times> ('a, 'os, 's) classifier" where
  "fit_epochs R [] train_stats best_val_set c = (Inr train_stats, c)"
| "fit_epochs R (ep # rest) train_stats best_val_set c =
     (case fit_epoch R c of
        (Inl e, c1) \<Rightarrow> (Inl e, c1)
      | (Inr t_loss, c1) \<Rightarrow>
          (case val_epoch R c1 of
             (Inl e, c2) \<Rightarrow> (Inl e, c2)
           | (Inr v_loss, c2) \<Rightarrow>
               (let stats = \<lparr> epoch = ep + 1, train_loss = t_loss,
                              test_loss = v_loss \<rparr>;
                    train_stats1 = train_stats\<lparr>epoch_stats := epoch_stats train_stats @ [stats]\<rparr>
                in if math_exp_overflows t_loss \<or> math_exp_overflows v_loss
                   then (Inl OverflowError, c2)
                   else
                     (let c3 = store None (Some (ep + 1)) c2
                      in if below_best v_loss best_val_set
                         then fit_epochs R rest (train_stats1\<lparr>best_epoch := ep + 1\<rparr>)
                                v_loss (store (Some BestModelPath) None c3)
                         else fit_epochs R rest train_stats1 best_val_set c3))))"

definition fit ::
  "('a, 'os, 's) runtime \<Rightarrow> ('a, 'os, 's) classifier
     \<Rightarrow> (error + TrainStats) \<times> ('a, 'os, 's) classifier" where
  "fit R c =
     (if train_loader c = None then (Inl ValueError, c)
      else if val_loader c = None then (Inl ValueError, c)
      else
        (let train_stats = TrainStats_init (TrainStats_cls R) (now c) 0 [] None None in
         case fit_epochs R [0..<num_epochs c] train_stats PosInf c of
           (Inl e, c1) \<Rightarrow> (Inl e, c1)
         | (Inr train_stats1, c1) \<Rightarrow>
             (let train_stats2 = TrainStats_to_json (now c1) train_stats1 in
              (Inr train_stats2,
               c1\<lparr>disk := disk c1 @ [(TrainStatsPath, TrainStatsJson train_stats2)]\<rparr>))))"

subsection \<open>The metrics of evaluate\<close>

text \<open>\<open>np.where(y >= 0.5, 1, 0)\<close>.\<close>

definition threshold :: "real list \<Rightarrow> nat list" where
  "threshold ys = map (\<lambda>v. if v \<ge> 0.5 then 1 else 0) ys"

text \<open>
  The scikit-learn metrics on binary labels, with their default arguments
  (\<open>pos_label = 1\<close>, \<open>zero_division = "warn"\<close>), as their documentation defines
  them.  Each of them raises ValueError when the two arrays differ in length.
  \<open>count_pairs t p\<close> is the entry of the confusion matrix for true label \<open>t\<close> and
  predicted label \<open>p\<close>.  A ratio with denominator zero is reported as 0.0 (with a
  warning).  The label arrays that evaluate passes hold at least one sample, since
  every batch of a loader does.
\<close>

definition count_pairs :: "nat \<Rightarrow> nat \<Rightarrow> nat list \<Rightarrow> nat list \<Rightarrow> nat" where
  "count_pairs t p y_true y_pred =
     length (filter (\<lambda>(a, b). a = t \<and> b = p) (zip y_true y_pred))"

definition ratio_or_zero :: "nat \<Rightarrow> nat \<Rightarrow> real" where
  "ratio_or_zero a b = (if b = 0 then 0 else real a / real b)"

definition check_consistent_length :: "nat list \<Rightarrow> nat list \<Rightarrow> real \<Rightarrow> error + real" where
  "check_consistent_length y_true y_pred v =
     (if length y_true = length y_pred then Inr v else Inl ValueError)"

definition accuracy_score :: "nat list \<Rightarrow> nat list \<Rightarrow> error + real" where
  "accuracy_score y_true y_pred =
     check_consistent_length y_true y_pred
       (real (length (filter (\<lambda>(a, b). a = b) (zip y_true y_pred))) / real (length y_true))"

definition precision_score :: "nat list \<Rightarrow> nat list \<Rightarrow> error + real" where
  "precision_score y_true y_pred =
     check_consistent_length y_true y_pred
       (ratio_or_zero (count_pairs 1 1 y_true y_pred)
          (count_pairs 1 1 y_true y_pred + count_pairs 0 1 y_true y_pred))"

definition recall_score :: "nat list \<Rightarrow> nat list \<Rightarrow> error + real" where
  "recall_score y_true y_pred =
     check_consistent_length y_true y_pred
       (ratio_or_zero (count_pairs 1 1 y_true y_pred)
          (count_pairs 1 1 y_true y_pred + count_pairs 1 0 y_true y_pred))"

definition f1_score :: "nat list \<Rightarrow> nat list \<Rightarrow> error + real" where
  "f1_score y_true y_pred =
     check_consistent_length y_true y_pred
       (ratio_or_zero (2 * count_pairs 1 1 y_true y_pred)
          (2 * count_pairs 1 1 y_true y_pred + count_pairs 0 1 y_true y_pred
             + count_pairs 1 0 y_true y_pred))"

text \<open>
  \<open>roc_auc_score\<close> raises ValueError ("Only one class present in y_true") unless
  both labels occur in \<open>y_true\<close>.  Otherwise it is the area under the ROC curve,
  that is the share of (positive, negative) pairs of samples in which the positive
  one has the higher score, a pair with equal scores counting one half.
\<close>

definition roc_area :: "nat list \<Rightarrow> nat list \<Rightarrow> real" where
  "roc_area y_true y_score =
     (let pos = map snd (filter (\<lambda>(t, s). t = 1) (zip y_true y_score));
          neg = map snd (filter (\<lambda>(t, s). t = 0) (zip y_true y_score))
      in (\<Sum>p\<leftarrow>pos. \<Sum>n\<leftarrow>neg. if n < p then 1 else if n = p then 1 / 2 else 0)
           / (real (length pos) * real (length neg)))"

definition roc_auc_score :: "nat list \<Rightarrow> nat list \<Rightarrow> error + real" where
  "roc_auc_score y_true y_score =
     (if length y_true \<noteq> length y_score then Inl ValueError
      else if 0 \<in> set y_true \<and> 1 \<in> set y_true then Inr (roc_area y_true y_score)
      else Inl ValueError)"

text \<open>
  \<open>matthews_corrcoef\<close>, from the confusion matrix \<open>C\<close>: with \<open>t_sum\<close> its row
  sums, \<open>p_sum\<close> its column sums, \<open>n_correct\<close> its trace and \<open>n_samples\<close> its total,
  \<open>cov_ytyp = n_correct * n_samples - t_sum . p_sum\<close>,
  \<open>cov_ypyp = n_samples ** 2 - p_sum . p_sum\<close>,
  \<open>cov_ytyt = n_samples ** 2 - t_sum . t_sum\<close>; the result is 0.0 when
  \<open>cov_ypyp * cov_ytyt\<close> is zero and \<open>cov_ytyp / sqrt(cov_ytyt * cov_ypyp)\<close>
  otherwise.
\<close>

definition matthews_corrcoef :: "nat list \<Rightarrow> nat list \<Rightarrow> error + real" where
  "matthews_corrcoef y_true y_pred =
     (let tn = int (count_pairs 0 0 y_true y_pred);
          fp = int (count_pairs 0 1 y_true y_pred);
          fn = int (count_pairs 1 0 y_true y_pred);
          tp = int (count_pairs 1 1 y_true y_pred);
          t0 = tn + fp; t1 = fn + tp;
          p0 = tn + fn; p1 = fp + tp;
          n_correct = tn + tp;
          n_samples = tn + fp + fn + tp;
          cov_ytyp = n_correct * n_samples - (t0 * p0 + t1 * p1);
          cov_ypyp = n_samples * n_samples - (p0 * p0 + p1 * p1);
          cov_ytyt = n_samples * n_samples - (t0 * t0 + t1 * t1)
      in check_consistent_length y_true y_pred
           (if cov_ypyp * cov_ytyt = 0 then 0
            else real_of_int cov_ytyp / sqrt (real_of_int (cov_ytyt * cov_ypyp))))"

subsection \<open>evaluate\<close>

text \<open>
  \<open>np.concatenate\<close> of an empty list of arrays (a loader without batches) raises
  ValueError.
\<close>

definition np_concatenate :: "'b list list \<Rightarrow> error + 'b list" where
  "np_concatenate arrays = (if arrays = [] then Inl ValueError else Inr (concat arrays))"

definition compute_metrics :: "nat list \<Rightarrow> nat list \<Rightarrow> error + EvaluationStats" where
  "compute_metrics y_true y_pred =
     bind_res (accuracy_score y_true y_pred) (\<lambda>a.
     bind_res (precision_score y_true y_pred) (\<lambda>p.
     bind_res (recall_score y_true y_pred) (\<lambda>r.
     bind_res (f1_score y_true y_pred) (\<lambda>f.
     bind_res (roc_auc_score y_true y_pred) (\<lambda>u.
     bind_res (matthews_corrcoef y_true y_pred) (\<lambda>m.
     Inr \<lparr> accuracy = a, precision = p, recall = r, f1 = f, auc = u, mcc = m \<rparr>))))))"

definition evaluate ::
  "('a, 'os, 's) runtime \<Rightarrow> ('a, 'os, 's) classifier
     \<Rightarrow> (error + EvaluationStats) \<times> ('a, 'os, 's) classifier" where
  "evaluate R c =
     (case test_loader c of
        None \<Rightarrow> (Inl ValueError, c)
      | Some loader \<Rightarrow>
          (let c1 = c\<lparr>model := (model c)\<lparr>training := False\<rparr>\<rparr>;
               ys_true = map batch_to_score loader;
               ys_pred = map (\<lambda>batch. module_call R (model c1) (batch_to_input batch)) loader
           in (bind_res (np_concatenate ys_true) (\<lambda>y_true.
               bind_res (np_concatenate ys_pred) (\<lambda>y_pred.
               compute_metrics (threshold y_true) (threshold y_pred))), c1)))"

subsection \<open>k-fold cross validation\<close>

record 'a fold =
  train_set :: "'a dataset"
  val_set :: "'a dataset"

text \<open>
  Modelled from the spec: \<open>split_k_fold\<close> of encoders/dataset\_utils.py, which is
  not among the sources.  The specification says that it partitions the training
  dataset into k folds, each a train/validation split.  Here fold \<open>i\<close> validates on
  the samples whose position is \<open>i\<close> modulo \<open>k\<close> and trains on the others.
\<close>

definition split_k_fold :: "'a dataset \<Rightarrow> nat \<Rightarrow> 'a fold list" where
  "split_k_fold ds k =
     map (\<lambda>i. \<lparr> train_set = map snd (filter (\<lambda>(j, x). j mod k \<noteq> i) (enumerate 0 ds)),
                val_set = map snd (filter (\<lambda>(j, x). j mod k = i) (enumerate 0 ds)) \<rparr>)
       [0..<k]"

text \<open>
  Modelled from the spec: \<open>dataset_to_dataloader\<close> of encoders/dataset\_utils.py,
  which is not among the sources.  The loader yields the samples of the dataset in
  batches of \<open>batch_size\<close> samples, the last batch holding the remainder.
\<close>

definition dataset_to_dataloader :: "'a dataset \<Rightarrow> nat \<Rightarrow> 'a loader" where
  "dataset_to_dataloader ds bs =
     map (\<lambda>i. take bs (drop (i * bs) ds)) [0..<(length ds + bs - 1) div bs]"

text \<open>
  The body of \<open>for idx, fold in enumerate(folds)\<close>, over the remaining folds; \<open>ts\<close>
  is the test dataset.
\<close>

definition reset_model_and_optimizer ::
  "('a, 'os, 's) runtime \<Rightarrow> ('a, 'os, 's) classifier \<Rightarrow> ('a, 'os, 's) classifier" where
  "reset_model_and_optimizer R c =
     (let (p, s) = build_from_config R (seed c);
          c1 = c\<lparr>model := \<lparr> params = p, training = True \<rparr>, seed := s\<rparr>;
          opt = new_optimizer R (params (model c1)) (learning_rate c1)
      in c1\<lparr>optimizer := optimizer_load_state_dict opt (initial_optimizer_state_dict c1)\<rparr>)"

fun k_fold_folds ::
  "('a, 'os, 's) runtime \<Rightarrow> 'a dataset \<Rightarrow> 'a fold list \<Rightarrow> EvaluationStats list
     \<Rightarrow> ('a, 'os, 's) classifier
     \<Rightarrow> (error + EvaluationStats list) \<times> ('a, 'os, 's) classifier" where
  "k_fold_folds R ts [] stats_so_far c = (Inr stats_so_far, c)"
| "k_fold_folds R ts (fld # rest) stats_so_far c =
     (let c1 = c\<lparr>train_loader := Some (dataset_to_dataloader (train_set fld) (batch_size c)),
                 val_loader := Some (dataset_to_dataloader (val_set fld) (batch_size c))\<rparr>
      in case fit R c1 of
           (Inl e, c2) \<Rightarrow> (Inl e, c2)
         | (Inr _, c2) \<Rightarrow>
             (let c3 = c2\<lparr>test_loader := Some (dataset_to_dataloader ts (batch_size c2))\<rparr>
              in case evaluate R c3 of
                   (Inl e, c4) \<Rightarrow> (Inl e, c4)
                 | (Inr stats, c4) \<Rightarrow>
                     k_fold_folds R ts rest (stats_so_far @ [stats])
                       (reset_model_and_optimizer R c4)))"

definition k_fold_cv ::
  "('a, 'os, 's) runtime \<Rightarrow> ('a, 'os, 's) classifier \<Rightarrow> nat
     \<Rightarrow> (error + KFoldStats) \<times> ('a, 'os, 's) classifier" where
  "k_fold_cv R c k =
     (case train_dataset c of
        None \<Rightarrow> (Inl ValueError, c)
      | Some ds \<Rightarrow>
          (case test_dataset c of
             None \<Rightarrow> (Inl ValueError, c)
           | Some ts \<Rightarrow>
               (case k_fold_folds R ts (split_k_fold ds k) [] c of
                  (Inl e, c1) \<Rightarrow> (Inl e, c1)
                | (Inr stats_list, c1) \<Rightarrow>
                    (case KFoldStats_init stats_list of
                       Inl e \<Rightarrow> (Inl e, c1)
                     | Inr stats \<Rightarrow>
                         (Inr stats,
                          c1\<lparr>disk := disk c1 @ [(KFoldStatsPath, KFoldStatsJson stats)]\<rparr>)))))"

section \<open>The earlier classifier (models/base\_classifier.py)\<close>

text \<open>
  This \<open>BaseClassifier\<close> has the loaders \<open>train_loader\<close>, \<open>test_loader\<close> and
  \<open>validation_loader\<close>.  Its \<open>_fit_epoch\<close> and \<open>_eval_epoch\<close> are abstract; a
  subclass supplies them.  Its \<open>fit\<close> has the same loop as above and returns
  nothing.
\<close>

record 'a models_classifier =
  m_model :: module
  m_train_loader :: "'a loader option"
  m_test_loader :: "'a loader option"
  validation_loader :: "'a loader option"
  m_num_epochs :: nat
  m_disk :: "(path \<times> file_content) list"
  m_now :: real

record 'a models_subclass =
  m_fit_epoch :: "'a models_classifier \<Rightarrow> (error + pyfloat) \<times> 'a models_classifier"
  m_eval_epoch :: "'a models_classifier \<Rightarrow> (error + pyfloat) \<times> 'a models_classifier"

definition m_store ::
  "path option \<Rightarrow> nat option \<Rightarrow> 'a models_classifier \<Rightarrow> 'a models_classifier" where
  "m_store path_arg epoch_arg c =
     (let p = (case path_arg of
                 Some p \<Rightarrow> p
               | None \<Rightarrow> (case epoch_arg of None \<Rightarrow> ModelPath | Some e \<Rightarrow> ModelEpochPath e))
      in c\<lparr>m_disk := m_disk c @ [(p, Checkpoint (params (m_model c)))]\<rparr>)"

fun m_fit_epochs ::
  "'a models_subclass \<Rightarrow> nat list \<Rightarrow> TrainStats \<Rightarrow> pyfloat \<Rightarrow> 'a models_classifier
     \<Rightarrow> (error + TrainStats) \<times> 'a models_classifier" where
  "m_fit_epochs S [] train_stats best_test_loss c = (Inr train_stats, c)"
| "m_fit_epochs S (ep # rest) train_stats best_test_loss c =
     (case m_fit_epoch S c of
        (Inl e, c1) \<Rightarrow> (Inl e, c1)
      | (Inr t_loss, c1) \<Rightarrow>
          (case m_eval_epoch S c1 of
             (Inl e, c2) \<Rightarrow> (Inl e, c2)
           | (Inr v_loss, c2) \<Rightarrow>
               (let stats = \<lparr> epoch = ep + 1, train_loss = t_loss, test_loss = v_loss \<rparr>;
                    train_stats1 = train_stats\<lparr>epoch_stats := epoch_stats train_stats @ [stats]\<rparr>
                in if math_exp_overflows t_loss \<or> math_exp_overflows v_loss
                   then (Inl OverflowError, c2)
                   else
                     (let c3 = m_store None (Some (ep + 1)) c2
                      in if below_best v_loss best_test_loss
                         then m_fit_epochs S rest (train_stats1\<lparr>best_epoch := ep + 1\<rparr>)
                                v_loss (m_store (Some BestModelPath) None c3)
                         else m_fit_epochs S rest train_stats1 best_test_loss c3))))"

definition m_fit ::
  "TrainStats_class \<Rightarrow> 'a models_subclass \<Rightarrow> 'a models_classifier
     \<Rightarrow> (error + unit) \<times> 'a models_classifier" where
  "m_fit cls S c =
     (if m_train_loader c = None then (Inl ValueError, c)
      else if m_test_loader c = None then (Inl ValueError, c)
      else
        (let train_stats = TrainStats_init cls (m_now c) 0 [] None None in
         case m_fit_epochs S [0..<m_num_epochs c] train_stats PosInf c of
           (Inl e, c1) \<Rightarrow> (Inl e, c1)
         | (Inr train_stats1, c1) \<Rightarrow>
             (let train_stats2 = TrainStats_to_json (m_now c1) train_stats1 in
              (Inr (),
               c1\<lparr>m_disk := m_disk c1 @ [(TrainStatsPath, TrainStatsJson train_stats2)]\<rparr>))))"

section \<open>A small concrete classifier\<close>

text \<open>
  A model with the single parameter \<open>w\<close> that multiplies its input by \<open>w\<close>, the
  mean squared error, clamped at 100, as criterion, and an optimizer whose step adds 1
  to \<open>w\<close> and counts the steps.  A fresh build starts from a weight drawn from the
  random state.
\<close>

definition weight :: "state_dict \<Rightarrow> real" where
  "weight p = (case p of [(k, [w])] \<Rightarrow> w | _ \<Rightarrow> 0)"

definition mse_loss :: "real list \<Rightarrow> real list \<Rightarrow> real" where
  "mse_loss outputs ys =
     (\<Sum>(out, y)\<leftarrow>zip outputs ys. (out - y) ^ 2) / real (length outputs)"

definition toy_runtime :: "(real, nat, nat) runtime" where
  "toy_runtime =
     \<lparr> forward = (\<lambda>p tr xs. map (\<lambda>x. x * weight p) xs),
       criterion = (\<lambda>outputs ys. Finite (min 100 (mse_loss outputs ys))),
       optimizer_step = (\<lambda>p os xs ys. ([(''w'', [weight p + 1])], os + 1)),
       build_from_config = (\<lambda>s. ([(''w'', [real s])], s + 1)),
       new_optimizer = (\<lambda>p lr. 0),
       TrainStats_cls = TrainStats_classdef 100 100 \<rparr>"

text \<open>
  One training batch and one validation batch, each with the sample of input 1 and
  score 5/2, four epochs: the weights after the epochs are 1, 2, 3, 4 and the
  validation losses 9/4, 1/4, 1/4, 9/4.
\<close>

definition toy_classifier :: "(real, nat, nat) classifier" where
  "toy_classifier =
     \<lparr> model = \<lparr> params = [(''w'', [0])], training = True \<rparr>,
       optimizer = 0,
       initial_optimizer_state_dict = 0,
       train_dataset = Some [(1, 5 / 2), (1, 5 / 2)],
       test_dataset = Some [(1, 0), (1, 1)],
       train_loader = Some [[(1, 5 / 2)]],
       val_loader = Some [[(1, 5 / 2)]],
       test_loader = None,
       batch_size = 1,
       num_epochs = 4,
       learning_rate = 15 / 10000,
       disk = [],
       seed = 7,
       now = 200 \<rparr>"

text \<open>
  A subclass of the earlier classifier whose epochs report the number of batches of
  the loader they run over, and an instance without validation loader.
\<close>

definition toy_subclass :: "real models_subclass" where
  "toy_subclass =
     \<lparr> m_fit_epoch = (\<lambda>c. (Inr (Finite (real (length (the (m_train_loader c))))), c)),
       m_eval_epoch = (\<lambda>c. (Inr (Finite (real (length (the (m_test_loader c))))), c)) \<rparr>"

definition toy_models_classifier :: "real models_classifier" where
  "toy_models_classifier =
     \<lparr> m_model = \<lparr> params = [(''w'', [0])], training = True \<rparr>,
       m_train_loader = Some [[(1, 5 / 2)]],
       m_test_loader = Some [[(1, 5 / 2)]],
       validation_loader = None,
       m_num_epochs = 1,
       m_disk = [],
       m_now = 200 \<rparr>"

text \<open>
  A classifier whose model has been trained to the weight 3 and whose optimizer has
  made three steps, and a fresh classifier that sees the file the first one stores
  at \<open>model.pt\<close>.
\<close>

definition trained_classifier :: "(real, nat, nat) classifier" where
  "trained_classifier =
     toy_classifier\<lparr>model := \<lparr> params = [(''w'', [3])], training = False \<rparr>,
                    optimizer := 3\<rparr>"

definition fresh_classifier :: "(real, nat, nat) classifier" where
  "fresh_classifier =
     toy_classifier\<lparr>disk := disk (store (Some (UserPath ''model.pt'')) None trained_classifier)\<rparr>"

text \<open>
  Two classifiers whose model (weight 1) reproduces the score of every test sample:
  the first is tested on a single sample of score 1, the second on one sample of
  score 1 and one of score 0.
\<close>

definition single_class_classifier :: "(real, nat, nat) classifier" where
  "single_class_classifier =
     toy_classifier\<lparr>model := \<lparr> params = [(''w'', [1])], training = False \<rparr>,
                    test_loader := Some [[(1, 1)]]\<rparr>"

definition two_class_classifier :: "(real, nat, nat) classifier" where
  "two_class_classifier =
     toy_classifier\<lparr>model := \<lparr> params = [(''w'', [1])], training = False \<rparr>,
                    test_loader := Some [[(1, 1), (0, 0)]]\<rparr>"

text \<open>
  The classifier for cross validation: two training samples, the test samples
  \<open>(1, 0)\<close> and \<open>(1, 1)\<close>, batches of one sample, one epoch per fold.
\<close>

definition kfold_classifier :: "(real, nat, nat) classifier" where
  "kfold_classifier = toy_classifier\<lparr>num_epochs := 1\<rparr>"

text \<open>
  The same model with a criterion that yields NaN for every batch, trained for two
  epochs.
\<close>

definition nan_runtime :: "(real, nat, nat) runtime" where
  "nan_runtime = toy_runtime\<lparr>criterion := (\<lambda>outputs ys. NaN)\<rparr>"

definition two_epoch_classifier :: "(real, nat, nat) classifier" where
  "two_epoch_classifier = toy_classifier\<lparr>num_epochs := 2\<rparr>"

section \<open>Notions used in the statements about fit\<close>

text \<open>
  The training methods change the model, the optimizer and the disk; \<open>same_settings\<close>
  says that the loaders and the other settings of the classifier are as before.
\<close>

definition same_settings :: "('a, 'os, 's) classifier \<Rightarrow> ('a, 'os, 's) classifier \<Rightarrow> bool" where
  "same_settings c c' \<longleftrightarrow>
     train_loader c' = train_loader c \<and> val_loader c' = val_loader c \<and>
     test_loader c' = test_loader c \<and>
     train_dataset c' = train_dataset c \<and> test_dataset c' = test_dataset c \<and>
     batch_size c' = batch_size c \<and> num_epochs c' = num_epochs c \<and>
     learning_rate c' = learning_rate c \<and>
     initial_optimizer_state_dict c' = initial_optimizer_state_dict c \<and>
     seed c' = seed c \<and> now c' = now c"

text \<open>
  \<open>a \<le> b\<close> on floats; false when one of them is NaN.
\<close>

definition float_le :: "pyfloat \<Rightarrow> pyfloat \<Rightarrow> bool" where
  "float_le a b \<longleftrightarrow> float_lt a b \<or> (a = b \<and> a \<noteq> NaN)"

text \<open>
  \<open>vs\<close> is the list of the validation losses of the epochs, in order.  The loss at
  position \<open>i\<close> improves on the best seen so far when it is below \<open>+inf\<close> and
  strictly smaller than every earlier loss that is a number.
\<close>

definition improves :: "pyfloat list \<Rightarrow> nat \<Rightarrow> bool" where
  "improves vs i \<longleftrightarrow>
     float_lt (vs ! i) PosInf \<and> (\<forall>j < i. vs ! j = NaN \<or> float_lt (vs ! i) (vs ! j))"

text \<open>
  The state of the classifier after one more epoch of training and validation, and
  the files written in the epoch at position \<open>i\<close> (its number is \<open>i + 1\<close>) when
  the model's parameters are \<open>p\<close>: the epoch checkpoint, followed by the best-model
  checkpoint if and only if the loss of the epoch improves on the best seen so far.
\<close>

definition epoch_state ::
  "('a, 'os, 's) runtime \<Rightarrow> ('a, 'os, 's) classifier \<Rightarrow> ('a, 'os, 's) classifier" where
  "epoch_state R c = snd (val_epoch R (snd (fit_epoch R c)))"

definition epoch_writes :: "pyfloat list \<Rightarrow> nat \<times> state_dict \<Rightarrow> (path \<times> file_content) list" where
  "epoch_writes vs = (\<lambda>(i, p).
     (ModelEpochPath (i + 1), Checkpoint p)
       # (if improves vs i then [(BestModelPath, Checkpoint p)] else []))"

text \<open>
  Position \<open>i\<close> is the earliest position of the least loss of \<open>vs\<close>, NaN losses
  left aside, and that loss is below \<open>+inf\<close>.
\<close>

definition best_at :: "pyfloat list \<Rightarrow> nat \<Rightarrow> bool" where
  "best_at vs i \<longleftrightarrow>
     i < length vs \<and> float_lt (vs ! i) PosInf \<and>
     (\<forall>j < i. vs ! j = NaN \<or> float_lt (vs ! i) (vs ! j)) \<and>
     (\<forall>j < length vs. vs ! j = NaN \<or> float_le (vs ! i) (vs ! j))"

text \<open>
  The invariant of the loop of fit: as long as no loss was below \<open>+inf\<close>,
  \<open>best_val_set\<close> is \<open>+inf\<close> and \<open>best_epoch\<close> is 0; afterwards \<open>best_epoch\<close>
  is the number of the earliest epoch with the least loss so far and
  \<open>best_val_set\<close> is that loss.
\<close>

definition best_inv :: "TrainStats \<Rightarrow> pyfloat \<Rightarrow> bool" where
  "best_inv ts best \<longleftrightarrow>
     ((\<forall>v \<in> set (map test_loss (epoch_stats ts)). \<not> float_lt v PosInf) \<and>
        best = PosInf \<and> best_epoch ts = 0) \<or>
     (\<exists>i. best_at (map test_loss (epoch_stats ts)) i \<and>
          best_epoch ts = Suc i \<and> best = map test_loss (epoch_stats ts) ! i)"

text \<open>
  The criterion yields finite losses whose exponential does not overflow (the binary
  cross entropy of torch, for one, is at most 100).
\<close>

definition bounded_criterion :: "('a, 'os, 's) runtime \<Rightarrow> bool" where
  "bounded_criterion R \<longleftrightarrow>
     (\<forall>outputs ys. \<exists>x. criterion R outputs ys = Finite x \<and> x \<le> exp_overflow_bound)"

section \<open>Properties of the stats reductions\<close>

lemma foldl_max_eq: "foldl (\<lambda>m y. if y > m then y else m) x xs = Max (set (x # xs))"
proof (induction xs arbitrary: x)
  case Nil
  then show ?case by simp
next
  case (Cons a xs)
  have "(if a > x then a else x) = max x a" by (auto simp add: max_def)
  then have "foldl (\<lambda>m y. if y > m then y else m) x (a # xs) = Max (set (max x a # xs))"
    using Cons.IH [of "max x a"] by simp
  also have "\<dots> = Max (set (x # a # xs))"
    by (cases "xs = []") (simp_all add: Max_insert max.assoc)
  finally show ?case .
qed

lemma foldl_min_eq: "foldl (\<lambda>m y. if y < m then y else m) x xs = Min (set (x # xs))"
proof (induction xs arbitrary: x)
  case Nil
  then show ?case by simp
next
  case (Cons a xs)
  have "(if a < x then a else x) = min x a" by (auto simp add: min_def)
  then have "foldl (\<lambda>m y. if y < m then y else m) x (a # xs) = Min (set (min x a # xs))"
    using Cons.IH [of "min x a"] by simp
  also have "\<dots> = Min (set (x # a # xs))"
    by (cases "xs = []") (simp_all add: Min_insert min.assoc)
  finally show ?case .
qed

lemma np_std_population: "np_std xs = population_std xs"
  by (simp add: np_std_def np_mean_def population_std_def)

lemma metric_summary_Nil: "metric_summary [] = Inl ValueError"
  by (simp add: metric_summary_def bind_res_def)

lemma metric_summary_reduces:
  assumes "xs \<noteq> []"
  shows "\<exists>mx mn mean sd. metric_summary xs = Inr (mx, mn, mean, sd) \<and> reduces_to xs mx mn mean sd"
proof -
  obtain y ys where xs: "xs = y # ys" using assms by (cases xs) auto
  have "metric_summary xs = Inr (Max (set xs), Min (set xs), np_mean xs, np_std xs)"
    unfolding xs metric_summary_def bind_res_def
    by (simp only: py_max.simps py_min.simps foldl_max_eq foldl_min_eq sum.case)
  moreover have "reduces_to xs (Max (set xs)) (Min (set xs)) (np_mean xs) (np_std xs)"
    by (simp add: reduces_to_def np_std_population) (simp add: np_mean_def)
  ultimately show ?thesis by blast
qed

lemma KFoldStats_init_reduces:
  assumes ne: "fs \<noteq> []"
  shows "\<exists>ks. KFoldStats_init fs = Inr ks \<and> fold_stats ks = fs \<and>
         reduces_to (map accuracy fs)
           (max_accuracy ks) (min_accuracy ks) (mean_accuracy ks) (std_accuracy ks) \<and>
         reduces_to (map precision fs)
           (max_precision ks) (min_precision ks) (mean_precision ks) (std_precision ks) \<and>
         reduces_to (map recall fs)
           (max_recall ks) (min_recall ks) (mean_recall ks) (std_recall ks) \<and>
         reduces_to (map f1 fs) (max_f1 ks) (min_f1 ks) (mean_f1 ks) (std_f1 ks) \<and>
         reduces_to (map auc fs) (max_auc ks) (min_auc ks) (mean_auc ks) (std_auc ks) \<and>
         reduces_to (map mcc fs) (max_mcc ks) (min_mcc ks) (mean_mcc ks) (std_mcc ks)"
proof -
  obtain a1 a2 a3 a4 where a: "metric_summary (map accuracy fs) = Inr (a1, a2, a3, a4)"
    "reduces_to (map accuracy fs) a1 a2 a3 a4"
    using metric_summary_reduces [of "map accuracy fs"] ne by auto
  obtain p1 p2 p3 p4 where p: "metric_summary (map precision fs) = Inr (p1, p2, p3, p4)"
    "reduces_to (map precision fs) p1 p2 p3 p4"
    using metric_summary_reduces [of "map precision fs"] ne by auto
  obtain r1 r2 r3 r4 where r: "metric_summary (map recall fs) = Inr (r1, r2, r3, r4)"
    "reduces_to (map recall fs) r1 r2 r3 r4"
    using metric_summary_reduces [of "map recall fs"] ne by auto
  obtain f1' f2 f3 f4 where f: "metric_summary (map f1 fs) = Inr (f1', f2, f3, f4)"
    "reduces_to (map f1 fs) f1' f2 f3 f4"
    using metric_summary_reduces [of "map f1 fs"] ne by auto
  obtain u1 u2 u3 u4 where u: "metric_summary (map auc fs) = Inr (u1, u2, u3, u4)"
    "reduces_to (map auc fs) u1 u2 u3 u4"
    using metric_summary_reduces [of "map auc fs"] ne by auto
  obtain m1 m2 m3 m4 where m: "metric_summary (map mcc fs) = Inr (m1, m2, m3, m4)"
    "reduces_to (map mcc fs) m1 m2 m3 m4"
    using metric_summary_reduces [of "map mcc fs"] ne by auto
  show ?thesis
    unfolding KFoldStats_init_def a(1) p(1) r(1) f(1) u(1) m(1) bind_res_def
    using a(2) p(2) r(2) f(2) u(2) m(2) by simp
qed

lemma KFoldStats_init_Nil: "KFoldStats_init [] = Inl ValueError"
  by (simp add: KFoldStats_init_def metric_summary_Nil bind_res_def)

text \<open>
  Claim C1.  For every non-empty list of per-fold EvaluationStats the constructor
  returns a KFoldStats that keeps the list and whose max, min, mean and std fields are,
  for each of accuracy, precision, recall, f1, auc and mcc, the greatest element, the
  least element, the arithmetic mean and the population standard deviation of that
  metric over the folds.  For the empty list the constructor does not return: the
  first \<open>max\<close> raises ValueError.
\<close>

theorem KFoldStats_aggregates:
  "(fs \<noteq> [] \<longrightarrow>
      (\<exists>ks. KFoldStats_init fs = Inr ks \<and> fold_stats ks = fs \<and>
         reduces_to (map accuracy fs)
           (max_accuracy ks) (min_accuracy ks) (mean_accuracy ks) (std_accuracy ks) \<and>
         reduces_to (map precision fs)
           (max_precision ks) (min_precision ks) (mean_precision ks) (std_precision ks) \<and>
         reduces_to (map recall fs)
           (max_recall ks) (min_recall ks) (mean_recall ks) (std_recall ks) \<and>
         reduces_to (map f1 fs) (max_f1 ks) (min_f1 ks) (mean_f1 ks) (std_f1 ks) \<and>
         reduces_to (map auc fs) (max_auc ks) (min_auc ks) (mean_auc ks) (std_auc ks) \<and>
         reduces_to (map mcc fs) (max_mcc ks) (min_mcc ks) (mean_mcc ks) (std_mcc ks)))
   \<and> KFoldStats_init [] = Inl ValueError"
proof (intro conjI impI)
  assume "fs \<noteq> []"
  then show "\<exists>ks. KFoldStats_init fs = Inr ks \<and> fold_stats ks = fs \<and>
         reduces_to (map accuracy fs)
           (max_accuracy ks) (min_accuracy ks) (mean_accuracy ks) (std_accuracy ks) \<and>
         reduces_to (map precision fs)
           (max_precision ks) (min_precision ks) (mean_precision ks) (std_precision ks) \<and>
         reduces_to (map recall fs)
           (max_recall ks) (min_recall ks) (mean_recall ks) (std_recall ks) \<and>
         reduces_to (map f1 fs) (max_f1 ks) (min_f1 ks) (mean_f1 ks) (std_f1 ks) \<and>
         reduces_to (map auc fs) (max_auc ks) (min_auc ks) (mean_auc ks) (std_auc ks) \<and>
         reduces_to (map mcc fs) (max_mcc ks) (min_mcc ks) (mean_mcc ks) (std_mcc ks)"
    by (rule KFoldStats_init_reduces)
next
  show "KFoldStats_init [] = Inl ValueError"
    by (rule KFoldStats_init_Nil)
qed

lemma population_std_0_1: "population_std [0, 1] = 1 / 2"
proof -
  have "population_std [0, 1] = sqrt (1 / 4)"
    by (simp add: population_std_def power2_eq_square)
  also have "\<dots> = 1 / 2"
    by (simp add: real_sqrt_divide)
  finally show ?thesis .
qed

theorem KFoldStats_aggregates_witness:
  "[fold_a, fold_b] \<noteq> [] \<and>
   (\<exists>ks. KFoldStats_init [fold_a, fold_b] = Inr ks \<and>
      max_accuracy ks = 1 \<and> min_accuracy ks = 0 \<and>
      mean_accuracy ks = 1 / 2 \<and> std_accuracy ks = 1 / 2)"
  using KFoldStats_aggregates [of "[fold_a, fold_b]"]
  by (auto simp add: reduces_to_def fold_a_def fold_b_def population_std_0_1)

section \<open>The output shape of the structural extractor\<close>

text \<open>
  Claim C2, as stated, fails: for the input shape (1, 305, 50) the forward pass does
  not return the shape (1, 41472).
\<close>

theorem StructuralExtractor_shape_not_41472:
  "StructuralExtractor_forward (StructuralExtractor_build_from_config []) [1, 305, 50]
     \<noteq> Inr [1, 41472]"
  by (simp add: StructuralExtractor_forward_def StructuralExtractor_build_from_config_def
      StructuralExtractor_init_def bind_res_def)

text \<open>
  Claim C2, amended.  Whatever parameters the extractor is built from (the
  configuration ignores them), a forward pass on an input of shape (n, 305, 50)
  returns a tensor of shape (n, 4608), in particular (1, 4608) for one matrix: the
  three convolution and pooling stages leave 64 channels of 24 by 3 values.
\<close>

theorem StructuralExtractor_shape_4608:
  "StructuralExtractor_forward (StructuralExtractor_build_from_config kwargs) [n, 305, 50]
     = Inr [n, 4608]
   \<and> StructuralExtractor_forward (StructuralExtractor_build_from_config kwargs) [1, 305, 50]
     = Inr [1, 64 * 24 * 3]"
  by (simp add: StructuralExtractor_forward_def StructuralExtractor_build_from_config_def
      StructuralExtractor_init_def bind_res_def)

section \<open>Position ids and token type ids of the Bert embedding\<close>







section \<open>The default start time of TrainStats\<close>

text \<open>
  Claim C9.  Every TrainStats constructed without an explicit \<open>start_time\<close> has the
  start time that was read once while the class body was evaluated, whatever the time
  of the constructor call; so two instances created at different times have equal
  start times.
\<close>

theorem TrainStats_default_start_time_shared:
  "start_time (TrainStats_init (TrainStats_classdef t1 t2) now1 b1 es1 None et1) = py_int t1
   \<and> start_time (TrainStats_init (TrainStats_classdef t1 t2) now1 b1 es1 None et1)
     = start_time (TrainStats_init (TrainStats_classdef t1 t2) now2 b2 es2 None et2)"
  by (simp add: TrainStats_init_def TrainStats_classdef_def)

section \<open>What an epoch and fit leave unchanged\<close>

lemma same_settings_refl: "same_settings c c"
  by (simp add: same_settings_def)

lemma same_settings_trans:
  "same_settings a b \<Longrightarrow> same_settings b c \<Longrightarrow> same_settings a c"
  by (simp add: same_settings_def)

lemma store_settings: "same_settings c (store p e c)"
  by (simp add: same_settings_def store_def Let_def)

lemma fit_batch_settings: "same_settings c (snd (fit_batch R c x y))"
  by (simp add: same_settings_def fit_batch_def Let_def split: prod.splits)

lemma fit_batches_settings: "same_settings c (snd (fit_batches R l a c))"
proof (induction l arbitrary: a c)
  case Nil
  then show ?case by (simp add: same_settings_refl)
next
  case (Cons b l)
  obtain loss c1 where fb: "fit_batch R c (batch_to_input b) (batch_to_score b) = (loss, c1)"
    by (cases "fit_batch R c (batch_to_input b) (batch_to_score b)")
  have "same_settings c c1" using fit_batch_settings [of c R] fb by (metis snd_conv)
  moreover have "same_settings c1 (snd (fit_batches R l (float_add a loss) c1))" by (rule Cons.IH)
  ultimately show ?case using fb by (simp add: same_settings_trans)
qed

lemma fit_epoch_settings: "same_settings c (snd (fit_epoch R c))"
proof -
  let ?c1 = "c\<lparr>model := (model c)\<lparr>training := True\<rparr>\<rparr>"
  have a: "same_settings c ?c1" by (simp add: same_settings_def)
  show ?thesis
  proof (cases "train_loader c")
    case None
    then show ?thesis using a by (simp add: fit_epoch_def Let_def)
  next
    case (Some l)
    have "same_settings ?c1 (snd (fit_batches R l (Finite 0) ?c1))" by (rule fit_batches_settings)
    then have "same_settings c (snd (fit_batches R l (Finite 0) ?c1))"
      using a same_settings_trans by blast
    then show ?thesis using Some a
      by (auto simp add: fit_epoch_def Let_def split: prod.splits)
  qed
qed

lemma val_epoch_settings: "same_settings c (snd (val_epoch R c))"
  by (simp add: val_epoch_def Let_def same_settings_def split: option.splits)

lemma fit_epoch_result:
  assumes "train_loader c = Some l"
  shows "fst (fit_epoch R c) =
           (if l = [] then Inl ZeroDivisionError
            else Inr (float_div_nat
                        (fst (fit_batches R l (Finite 0)
                                (c\<lparr>model := (model c)\<lparr>training := True\<rparr>\<rparr>)))
                        (length l)))"
  using assms by (simp add: fit_epoch_def Let_def split: prod.splits)

lemma val_epoch_result:
  assumes "val_loader c = Some l"
  shows "fst (val_epoch R c) =
           (if l = [] then Inl ZeroDivisionError
            else Inr (float_div_nat
                        (val_batches R l (Finite 0)
                           (c\<lparr>model := (model c)\<lparr>training := False\<rparr>\<rparr>))
                        (length l)))"
  using assms by (simp add: val_epoch_def Let_def)

text \<open>With a bounded criterion the loss of an epoch is within the bound.\<close>

lemma fit_batches_bound:
  assumes "bounded_criterion R"
  shows "\<exists>s. fst (fit_batches R l (Finite a) c) = Finite s \<and>
             s \<le> a + real (length l) * exp_overflow_bound"
proof (induction l arbitrary: a c)
  case Nil
  then show ?case by simp
next
  case (Cons b l)
  obtain loss c1 where fb: "fit_batch R c (batch_to_input b) (batch_to_score b) = (loss, c1)"
    by (cases "fit_batch R c (batch_to_input b) (batch_to_score b)")
  have "loss = criterion R (module_call R (model c) (batch_to_input b)) (batch_to_score b)"
    using fb by (simp add: fit_batch_def Let_def split: prod.splits)
  then obtain x where x: "loss = Finite x" "x \<le> exp_overflow_bound"
    using assms unfolding bounded_criterion_def by metis
  obtain s where s: "fst (fit_batches R l (Finite (a + x)) c1) = Finite s"
    "s \<le> (a + x) + real (length l) * exp_overflow_bound"
    using Cons.IH [of "a + x" c1] by blast
  have "s \<le> a + real (length (b # l)) * exp_overflow_bound"
    using s(2) x(2) by (simp add: algebra_simps)
  then show ?case using fb x(1) s(1) by simp
qed

lemma val_batches_bound:
  assumes "bounded_criterion R"
  shows "\<exists>s. val_batches R l (Finite a) c = Finite s \<and>
             s \<le> a + real (length l) * exp_overflow_bound"
proof (induction l arbitrary: a)
  case Nil
  then show ?case by simp
next
  case (Cons b l)
  let ?loss = "val_batch R c (batch_to_input b) (batch_to_score b)"
  obtain x where x: "?loss = Finite x" "x \<le> exp_overflow_bound"
    using assms unfolding bounded_criterion_def val_batch_def Let_def by metis
  obtain s where s: "val_batches R l (Finite (a + x)) c = Finite s"
    "s \<le> (a + x) + real (length l) * exp_overflow_bound"
    using Cons.IH [of "a + x"] by blast
  have "s \<le> a + real (length (b # l)) * exp_overflow_bound"
    using s(2) x(2) by (simp add: algebra_simps)
  then show ?case using x(1) s(1) by simp
qed

lemma average_bound:
  assumes "x \<le> real n * b" "0 < n"
  shows "x / real n \<le> b"
  using assms by (simp add: pos_divide_le_eq mult.commute)

lemma fit_epoch_no_overflow:
  assumes "train_loader c = Some l" "l \<noteq> []" "bounded_criterion R"
  shows "\<exists>t. fst (fit_epoch R c) = Inr t \<and> \<not> math_exp_overflows t"
proof -
  obtain x where x:
    "fst (fit_batches R l (Finite 0) (c\<lparr>model := (model c)\<lparr>training := True\<rparr>\<rparr>)) = Finite x"
    "x \<le> 0 + real (length l) * exp_overflow_bound"
    using fit_batches_bound [OF assms(3), of l 0] by blast
  have "x / real (length l) \<le> exp_overflow_bound"
    using x(2) assms(2) by (intro average_bound) simp_all
  then show ?thesis
    using fit_epoch_result [OF assms(1), of R] assms(2) x(1)
    by (simp add: math_exp_overflows_def)
qed

lemma val_epoch_no_overflow:
  assumes "val_loader c = Some l" "l \<noteq> []" "bounded_criterion R"
  shows "\<exists>v. fst (val_epoch R c) = Inr v \<and> \<not> math_exp_overflows v"
proof -
  obtain x where x:
    "val_batches R l (Finite 0) (c\<lparr>model := (model c)\<lparr>training := False\<rparr>\<rparr>) = Finite x"
    "x \<le> 0 + real (length l) * exp_overflow_bound"
    using val_batches_bound [OF assms(3), of l 0] by blast
  have "x / real (length l) \<le> exp_overflow_bound"
    using x(2) assms(2) by (intro average_bound) simp_all
  then show ?thesis
    using val_epoch_result [OF assms(1), of R] assms(2) x(1)
    by (simp add: math_exp_overflows_def)
qed

lemma fit_epochs_settings: "same_settings c (snd (fit_epochs R es ts best c))"
proof (induction es arbitrary: ts best c)
  case Nil
  then show ?case by (simp add: same_settings_refl)
next
  case (Cons e es)
  obtain r1 c1 where f: "fit_epoch R c = (r1, c1)" by (cases "fit_epoch R c")
  obtain r2 c2 where v: "val_epoch R c1 = (r2, c2)" by (cases "val_epoch R c1")
  have s1: "same_settings c c1" using fit_epoch_settings [of c R] f by simp
  have s2: "same_settings c1 c2" using val_epoch_settings [of c1 R] v by simp
  have s12: "same_settings c c2" using s1 s2 by (rule same_settings_trans)
  let ?c3 = "store None (Some (e + 1)) c2"
  have s3: "same_settings c ?c3"
    using s12 store_settings same_settings_trans by blast
  have s4: "same_settings c (store (Some BestModelPath) None ?c3)"
    using s3 store_settings same_settings_trans by blast
  show ?case
  proof (cases r1)
    case (Inl a)
    then show ?thesis using f s1 by simp
  next
    case r1: (Inr trn)
    show ?thesis
    proof (cases r2)
      case (Inl a)
      then show ?thesis using f v r1 s12 by simp
    next
      case r2: (Inr vld)
      note best = same_settings_trans [OF s4 Cons.IH]
      note other = same_settings_trans [OF s3 Cons.IH]
      show ?thesis
      proof (cases "math_exp_overflows trn \<or> math_exp_overflows vld")
        case True
        then show ?thesis using f v r1 r2 s12 by (simp add: Let_def)
      next
        case no: False
        show ?thesis
        proof (cases "below_best vld best")
          case True
          then show ?thesis using f v r1 r2 no best by (simp add: Let_def)
        next
          case False
          then show ?thesis using f v r1 r2 no other by (simp add: Let_def)
        qed
      qed
    qed
  qed
qed

text \<open>
  With both loaders non-empty and a bounded criterion no epoch raises, so the loop runs
  to its end.
\<close>

lemma fit_epochs_returns:
  assumes "train_loader c = Some trn" "trn \<noteq> []" "val_loader c = Some vld" "vld \<noteq> []"
    and "bounded_criterion R"
  shows "\<exists>ts'. fst (fit_epochs R es ts best c) = Inr ts'"
  using assms(1,3)
proof (induction es arbitrary: ts best c)
  case Nil
  then show ?case by simp
next
  case (Cons e es)
  obtain r1 c1 where f: "fit_epoch R c = (r1, c1)" by (cases "fit_epoch R c")
  obtain r2 c2 where v: "val_epoch R c1 = (r2, c2)" by (cases "val_epoch R c1")
  have s1: "same_settings c c1" using fit_epoch_settings [of c R] f by simp
  have s2: "same_settings c1 c2" using val_epoch_settings [of c1 R] v by simp
  obtain t_loss where r1: "r1 = Inr t_loss" "\<not> math_exp_overflows t_loss"
    using fit_epoch_no_overflow [OF Cons.prems(1) assms(2,5)] f by auto
  have "val_loader c1 = Some vld" using s1 Cons.prems(2) by (simp add: same_settings_def)
  then obtain v_loss where r2: "r2 = Inr v_loss" "\<not> math_exp_overflows v_loss"
    using val_epoch_no_overflow [of c1 vld R] assms(4,5) v by auto
  let ?c3 = "store None (Some (e + 1)) c2"
  have s3: "same_settings c ?c3"
    using s1 s2 store_settings same_settings_trans by blast
  have s4: "same_settings c (store (Some BestModelPath) None ?c3)"
    using s3 store_settings same_settings_trans by blast
  have l3: "train_loader ?c3 = Some trn" "val_loader ?c3 = Some vld"
    using s3 Cons.prems by (simp_all add: same_settings_def)
  have l4: "train_loader (store (Some BestModelPath) None ?c3) = Some trn"
    "val_loader (store (Some BestModelPath) None ?c3) = Some vld"
    using s4 Cons.prems by (simp_all add: same_settings_def)
  show ?case
    using f v r1 r2 Cons.IH [OF l3] Cons.IH [OF l4]
    by (simp add: Let_def)
qed

lemma fit_returns:
  assumes "train_loader c = Some trn" "trn \<noteq> []" "val_loader c = Some vld" "vld \<noteq> []"
    and "bounded_criterion R"
  shows "\<exists>ts. fst (fit R c) = Inr ts"
proof -
  obtain ts' where
    "fst (fit_epochs R [0..<num_epochs c]
            (TrainStats_init (TrainStats_cls R) (now c) 0 [] None None) PosInf c) = Inr ts'"
    using fit_epochs_returns [OF assms] by blast
  then show ?thesis
    using assms by (auto simp add: fit_def Let_def split: prod.splits sum.splits)
qed

text \<open>An epoch that raises ends the loop with its exception.\<close>

lemma fit_epochs_first_epoch_raises:
  assumes "fst (fit_epoch R c) = Inl e
           \<or> (\<exists>x. fst (fit_epoch R c) = Inr x) \<and> fst (val_epoch R (snd (fit_epoch R c))) = Inl e"
  shows "fst (fit_epochs R (ep # es) ts best c) = Inl e"
  using assms by (auto simp add: Let_def split: prod.splits sum.splits)

lemma fit_settings: "same_settings c (snd (fit R c))"
proof -
  have "same_settings c
          (snd (fit_epochs R [0..<num_epochs c]
                  (TrainStats_init (TrainStats_cls R) (now c) 0 [] None None) PosInf c))"
    by (rule fit_epochs_settings)
  then show ?thesis
    by (auto simp add: fit_def Let_def same_settings_refl same_settings_def
        split: prod.splits sum.splits)
qed

section \<open>fit without loaders\<close>

text \<open>
  Claim C3, as stated, fails for the \<open>fit\<close> of models/base\_classifier.py: with a
  train loader and a test loader but no validation loader it raises no ValueError
  and runs its epoch, writing two checkpoints and the training stats.
\<close>

theorem models_fit_without_validation_loader:
  "validation_loader toy_models_classifier = None \<and>
   fst (m_fit (TrainStats_classdef 100 100) toy_subclass toy_models_classifier) = Inr () \<and>
   map fst (m_disk (snd (m_fit (TrainStats_classdef 100 100) toy_subclass toy_models_classifier)))
     = [ModelEpochPath 1, BestModelPath, TrainStatsPath]"
  by (simp add: m_fit_def toy_subclass_def toy_models_classifier_def m_store_def below_best_def
      upt_rec TrainStats_init_def TrainStats_classdef_def TrainStats_to_json_def py_int_def
      math_exp_overflows_def exp_overflow_bound_def Let_def)

text \<open>
  Claim C3, amended.  The \<open>fit\<close> of toch/base\_classifier.py called with a null train
  loader or a null validation loader raises ValueError and leaves the classifier and
  the disk as they were: no epoch, no training step, no checkpoint write and no stats
  write.  The \<open>fit\<close> of models/base\_classifier.py does the same when its train
  loader or its test loader is null; it does not look at its validation loader.
\<close>

theorem fit_requires_loaders:
  "(train_loader c = None \<or> val_loader c = None \<longrightarrow> fit R c = (Inl ValueError, c))
   \<and> (m_train_loader d = None \<or> m_test_loader d = None
        \<longrightarrow> m_fit cls S d = (Inl ValueError, d))"
  by (simp add: fit_def m_fit_def)

theorem fit_requires_loaders_witness:
  "val_loader (toy_classifier\<lparr>val_loader := None\<rparr>) = None \<and>
   fit toy_runtime (toy_classifier\<lparr>val_loader := None\<rparr>)
     = (Inl ValueError, toy_classifier\<lparr>val_loader := None\<rparr>) \<and>
   disk (snd (fit toy_runtime (toy_classifier\<lparr>val_loader := None\<rparr>))) = [] \<and>
   m_test_loader (toy_models_classifier\<lparr>m_test_loader := None\<rparr>) = None \<and>
   m_fit (TrainStats_classdef 100 100) toy_subclass
       (toy_models_classifier\<lparr>m_test_loader := None\<rparr>)
     = (Inl ValueError, toy_models_classifier\<lparr>m_test_loader := None\<rparr>)"
  using fit_requires_loaders [of "toy_classifier\<lparr>val_loader := None\<rparr>" toy_runtime
      "toy_models_classifier\<lparr>m_test_loader := None\<rparr>" "TrainStats_classdef 100 100"
      toy_subclass]
  by (simp add: toy_classifier_def)

section \<open>Loaders without batches\<close>

lemma toy_bounded: "bounded_criterion toy_runtime"
proof -
  have "min 100 x \<le> exp_overflow_bound" for x :: real
  proof -
    have "min 100 x \<le> 100" by simp
    also have "\<dots> \<le> exp_overflow_bound" by (simp add: exp_overflow_bound_def)
    finally show ?thesis .
  qed
  then show ?thesis by (simp add: bounded_criterion_def toy_runtime_def)
qed

text \<open>
  Claim C10.  With non-null loaders, a training epoch raises ZeroDivisionError exactly
  when the train loader has no batches, and a validation epoch exactly when the
  validation loader has none; otherwise the epoch returns the accumulated loss
  divided by the number of batches.  A \<open>fit\<close> that runs at least one epoch therefore
  raises ZeroDivisionError when one of the loaders has no batches.  When both loaders
  have batches and the criterion is bounded (so that the log line of the epoch does not
  overflow), \<open>fit\<close> returns its stats.
\<close>

theorem empty_loader_division_by_zero:
  "(train_loader c = Some trn \<longrightarrow>
      (fst (fit_epoch R c) = Inl ZeroDivisionError \<longleftrightarrow> trn = []) \<and>
      (trn \<noteq> [] \<longrightarrow> fst (fit_epoch R c)
          = Inr (float_div_nat
                   (fst (fit_batches R trn (Finite 0)
                           (c\<lparr>model := (model c)\<lparr>training := True\<rparr>\<rparr>)))
                   (length trn))))
   \<and> (val_loader c = Some vld \<longrightarrow>
      (fst (val_epoch R c) = Inl ZeroDivisionError \<longleftrightarrow> vld = []) \<and>
      (vld \<noteq> [] \<longrightarrow> fst (val_epoch R c)
          = Inr (float_div_nat
                   (val_batches R vld (Finite 0)
                      (c\<lparr>model := (model c)\<lparr>training := False\<rparr>\<rparr>))
                   (length vld))))
   \<and> (train_loader c = Some trn \<and> val_loader c = Some vld \<and> 0 < num_epochs c \<and>
        (trn = [] \<or> vld = []) \<longrightarrow> fst (fit R c) = Inl ZeroDivisionError)
   \<and> (train_loader c = Some trn \<and> val_loader c = Some vld \<and> trn \<noteq> [] \<and> vld \<noteq> [] \<and>
        bounded_criterion R
        \<longrightarrow> (\<exists>ts. fst (fit R c) = Inr ts))"
proof (intro conjI impI)
  assume t: "train_loader c = Some trn"
  show "fst (fit_epoch R c) = Inl ZeroDivisionError \<longleftrightarrow> trn = []"
    using fit_epoch_result [OF t, of R] by simp
  show "fst (fit_epoch R c)
          = Inr (float_div_nat
                   (fst (fit_batches R trn (Finite 0)
                           (c\<lparr>model := (model c)\<lparr>training := True\<rparr>\<rparr>)))
                   (length trn))" if "trn \<noteq> []"
    using fit_epoch_result [OF t, of R] that by simp
next
  assume v: "val_loader c = Some vld"
  show "fst (val_epoch R c) = Inl ZeroDivisionError \<longleftrightarrow> vld = []"
    using val_epoch_result [OF v, of R] by simp
  show "fst (val_epoch R c)
          = Inr (float_div_nat
                   (val_batches R vld (Finite 0)
                      (c\<lparr>model := (model c)\<lparr>training := False\<rparr>\<rparr>))
                   (length vld))" if "vld \<noteq> []"
    using val_epoch_result [OF v, of R] that by simp
next
  assume h: "train_loader c = Some trn \<and> val_loader c = Some vld \<and> 0 < num_epochs c \<and>
             (trn = [] \<or> vld = [])"
  then obtain es where es: "[0..<num_epochs c] = 0 # es"
    by (auto simp add: upt_conv_Cons)
  have t: "train_loader c = Some trn" and v: "val_loader c = Some vld" using h by simp_all
  have v1: "val_loader (snd (fit_epoch R c)) = Some vld"
    using fit_epoch_settings [of c R] v by (simp add: same_settings_def)
  have "fst (fit_epoch R c) = Inl ZeroDivisionError
        \<or> (\<exists>x. fst (fit_epoch R c) = Inr x)
           \<and> fst (val_epoch R (snd (fit_epoch R c))) = Inl ZeroDivisionError"
  proof (cases "trn = []")
    case True
    then show ?thesis using fit_epoch_result [OF t, of R] by simp
  next
    case False
    then have "vld = []" using h by simp
    then show ?thesis
      using fit_epoch_result [OF t, of R] val_epoch_result [OF v1, of R] False by simp
  qed
  then have "fst (fit_epochs R (0 # es)
                    (TrainStats_init (TrainStats_cls R) (now c) 0 [] None None) PosInf c)
               = Inl ZeroDivisionError"
    by (rule fit_epochs_first_epoch_raises)
  then show "fst (fit R c) = Inl ZeroDivisionError"
    using t v es by (auto simp add: fit_def Let_def split: prod.splits sum.splits)
next
  assume h: "train_loader c = Some trn \<and> val_loader c = Some vld \<and> trn \<noteq> [] \<and> vld \<noteq> [] \<and>
             bounded_criterion R"
  then obtain ts' where
    "fst (fit_epochs R [0..<num_epochs c]
            (TrainStats_init (TrainStats_cls R) (now c) 0 [] None None) PosInf c) = Inr ts'"
    using fit_epochs_returns [of c trn vld R] by blast
  then show "\<exists>ts. fst (fit R c) = Inr ts"
    using h by (auto simp add: fit_def Let_def split: prod.splits sum.splits)
qed

theorem empty_loader_division_by_zero_witness:
  "train_loader (toy_classifier\<lparr>val_loader := Some []\<rparr>) = Some [[(1, 5 / 2)]] \<and>
   val_loader (toy_classifier\<lparr>val_loader := Some []\<rparr>) = Some [] \<and>
   0 < num_epochs (toy_classifier\<lparr>val_loader := Some []\<rparr>) \<and>
   fst (val_epoch toy_runtime (toy_classifier\<lparr>val_loader := Some []\<rparr>))
     = Inl ZeroDivisionError \<and>
   fst (fit toy_runtime (toy_classifier\<lparr>val_loader := Some []\<rparr>)) = Inl ZeroDivisionError \<and>
   (\<exists>ts. fst (fit toy_runtime toy_classifier) = Inr ts)"
proof -
  let ?c = "toy_classifier\<lparr>val_loader := Some []\<rparr>"
  have a: "train_loader ?c = Some [[(1, 5 / 2)]]" "val_loader ?c = Some []"
    "0 < num_epochs ?c"
    by (simp_all add: toy_classifier_def)
  have b: "train_loader toy_classifier = Some [[(1, 5 / 2)]]"
    "val_loader toy_classifier = Some [[(1, 5 / 2)]]"
    by (simp_all add: toy_classifier_def)
  have "bounded_criterion toy_runtime"
    by (simp add: toy_bounded)
  then show ?thesis
    using a b empty_loader_division_by_zero [of ?c "[[(1, 5 / 2)]]" toy_runtime "[]"]
      empty_loader_division_by_zero [of toy_classifier "[[(1, 5 / 2)]]" toy_runtime
        "[[(1, 5 / 2)]]"]
    by simp
qed

section \<open>The best checkpoint and the best epoch\<close>

subsection \<open>The order of the floats\<close>

lemma float_lt_trans: "float_lt a b \<Longrightarrow> float_lt b c \<Longrightarrow> float_lt a c"
  by (cases a; cases b; cases c) simp_all

lemma float_lt_not_NaN: "float_lt a b \<Longrightarrow> a \<noteq> NaN \<and> b \<noteq> NaN"
  by (cases a; cases b) simp_all

lemma float_lt_le_trans: "float_lt a b \<Longrightarrow> float_le b c \<Longrightarrow> float_lt a c"
  using float_lt_trans [of a b c] by (auto simp add: float_le_def)

lemma float_le_total: "a \<noteq> NaN \<Longrightarrow> b \<noteq> NaN \<Longrightarrow> \<not> float_lt a b \<Longrightarrow> float_le b a"
  by (cases a; cases b) (auto simp add: float_le_def)

lemma float_le_refl: "a \<noteq> NaN \<Longrightarrow> float_le a a"
  by (simp add: float_le_def)

lemma not_below_PosInf: "\<not> float_lt a PosInf \<Longrightarrow> a = NaN \<or> a = PosInf"
  by (cases a) simp_all

subsection \<open>The losses that improve\<close>

lemma improves_append: "i < length vs \<Longrightarrow> improves (vs @ ws) i = improves vs i"
  by (simp add: improves_def nth_append)

lemma improves_last:
  "improves (vs @ [v]) (length vs) \<longleftrightarrow>
     float_lt v PosInf \<and> (\<forall>j < length vs. vs ! j = NaN \<or> float_lt v (vs ! j))"
  by (simp add: improves_def nth_append)

lemma best_at_new:
  assumes "float_lt v PosInf" "\<forall>j < length vs. vs ! j = NaN \<or> float_lt v (vs ! j)"
  shows "best_at (vs @ [v]) (length vs)"
  unfolding best_at_def
proof (intro conjI allI impI)
  have v: "v \<noteq> NaN" using assms(1) float_lt_not_NaN by blast
  show "length vs < length (vs @ [v])" by simp
  show "float_lt ((vs @ [v]) ! length vs) PosInf" using assms(1) by simp
  fix j
  show "(vs @ [v]) ! j = NaN \<or> float_lt ((vs @ [v]) ! length vs) ((vs @ [v]) ! j)" if "j < length vs"
    using that assms(2) by (simp add: nth_append)
  show "(vs @ [v]) ! j = NaN \<or> float_le ((vs @ [v]) ! length vs) ((vs @ [v]) ! j)"
    if "j < length (vs @ [v])"
  proof (cases "j < length vs")
    case True
    then have "vs ! j = NaN \<or> float_lt v (vs ! j)" using assms(2) by simp
    then show ?thesis using True by (auto simp add: nth_append float_le_def)
  next
    case False
    then have "j = length vs" using that by simp
    then show ?thesis using v by (simp add: float_le_refl)
  qed
qed

lemma best_at_keep:
  assumes "best_at vs i" "\<not> float_lt v (vs ! i)"
  shows "best_at (vs @ [v]) i"
  unfolding best_at_def
proof (intro conjI allI impI)
  have i: "i < length vs" using assms(1) by (simp add: best_at_def)
  have fin: "float_lt (vs ! i) PosInf" using assms(1) by (simp add: best_at_def)
  then have n: "vs ! i \<noteq> NaN" using float_lt_not_NaN by blast
  show "i < length (vs @ [v])" using i by simp
  show "float_lt ((vs @ [v]) ! i) PosInf" using i fin by (simp add: nth_append)
  fix j
  show "(vs @ [v]) ! j = NaN \<or> float_lt ((vs @ [v]) ! i) ((vs @ [v]) ! j)" if "j < i"
    using that i assms(1) by (simp add: best_at_def nth_append)
  show "(vs @ [v]) ! j = NaN \<or> float_le ((vs @ [v]) ! i) ((vs @ [v]) ! j)"
    if "j < length (vs @ [v])"
  proof (cases "j < length vs")
    case True
    then show ?thesis using i assms(1) by (simp add: best_at_def nth_append)
  next
    case False
    then have j: "j = length vs" using that by simp
    have "v = NaN \<or> float_le (vs ! i) v"
      using float_le_total [of v "vs ! i"] n assms(2) by blast
    then show ?thesis using j i by (simp add: nth_append)
  qed
qed

lemma best_at_least:
  assumes "best_at vs i" "j < length vs"
  shows "vs ! j = NaN \<or> float_le (vs ! i) (vs ! j)"
  using assms by (simp add: best_at_def)

text \<open>One more loss keeps the invariant, and the best model is stored exactly for an improving loss.\<close>

lemma best_inv_step_lists:
  assumes "(\<forall>x \<in> set vs. \<not> float_lt x PosInf) \<and> best = PosInf \<and> be = 0
           \<or> (\<exists>i. best_at vs i \<and> be = Suc i \<and> best = vs ! i)"
  shows "(float_lt v best \<longleftrightarrow> improves (vs @ [v]) (length vs))
       \<and> (float_lt v best \<longrightarrow> best_at (vs @ [v]) (length vs))
       \<and> (\<not> float_lt v best \<longrightarrow>
            (\<forall>x \<in> set (vs @ [v]). \<not> float_lt x PosInf) \<and> best = PosInf \<and> be = 0
            \<or> (\<exists>i. best_at (vs @ [v]) i \<and> be = Suc i \<and> best = (vs @ [v]) ! i))"
  using assms
proof (elim disjE conjE exE)
  assume none: "\<forall>x \<in> set vs. \<not> float_lt x PosInf" and b: "best = PosInf" and z: "be = 0"
  have all: "\<forall>j < length vs. vs ! j = NaN \<or> float_lt v (vs ! j)" if "float_lt v PosInf"
  proof (intro allI impI)
    fix j assume "j < length vs"
    then have "\<not> float_lt (vs ! j) PosInf" using none by simp
    then have "vs ! j = NaN \<or> vs ! j = PosInf" by (rule not_below_PosInf)
    then show "vs ! j = NaN \<or> float_lt v (vs ! j)" using that by auto
  qed
  have 1: "float_lt v best \<longleftrightarrow> improves (vs @ [v]) (length vs)"
    unfolding improves_last b using all by blast
  have 2: "float_lt v best \<longrightarrow> best_at (vs @ [v]) (length vs)"
    unfolding b using all best_at_new [of v vs] by blast
  have 3: "\<not> float_lt v best \<longrightarrow>
            (\<forall>x \<in> set (vs @ [v]). \<not> float_lt x PosInf) \<and> best = PosInf \<and> be = 0"
    using none b z by simp
  show ?thesis using 1 2 3 by blast
next
  fix i
  assume at: "best_at vs i" and be: "be = Suc i" and b: "best = vs ! i"
  have i: "i < length vs" using at by (simp add: best_at_def)
  have fin: "float_lt (vs ! i) PosInf" using at by (simp add: best_at_def)
  then have n: "vs ! i \<noteq> NaN" using float_lt_not_NaN by blast
  have all: "\<forall>j < length vs. vs ! j = NaN \<or> float_lt v (vs ! j)" if lt: "float_lt v (vs ! i)"
  proof (intro allI impI)
    fix j assume "j < length vs"
    then have "vs ! j = NaN \<or> float_le (vs ! i) (vs ! j)" by (rule best_at_least [OF at])
    then show "vs ! j = NaN \<or> float_lt v (vs ! j)"
      using float_lt_le_trans [OF lt] by blast
  qed
  have vfin: "float_lt v PosInf" if lt: "float_lt v (vs ! i)"
    using float_lt_trans [OF lt fin] .
  have 1: "float_lt v best \<longleftrightarrow> improves (vs @ [v]) (length vs)"
    unfolding improves_last b using all vfin i n by blast
  have 2: "float_lt v best \<longrightarrow> best_at (vs @ [v]) (length vs)"
    unfolding b using all vfin best_at_new [of v vs] by blast
  have 3: "\<not> float_lt v best \<longrightarrow>
            (\<exists>k. best_at (vs @ [v]) k \<and> be = Suc k \<and> best = (vs @ [v]) ! k)"
  proof
    assume "\<not> float_lt v best"
    then have "best_at (vs @ [v]) i" unfolding b using at best_at_keep by blast
    then show "\<exists>k. best_at (vs @ [v]) k \<and> be = Suc k \<and> best = (vs @ [v]) ! k"
      using be b i by (intro exI [of _ i]) (simp add: nth_append)
  qed
  show ?thesis using 1 2 3 by blast
qed

lemma best_inv_step:
  assumes "best_inv ts best" "vs = map test_loss (epoch_stats ts)"
    and "epoch_stats ts1 = epoch_stats ts @ [st]" "test_loss st = v"
    and "best_epoch ts1 = (if below_best v best then Suc (length vs) else best_epoch ts)"
  shows "best_inv ts1 (if below_best v best then v else best)
         \<and> (below_best v best \<longleftrightarrow> improves (vs @ [v]) (length vs))"
proof -
  have vs1: "map test_loss (epoch_stats ts1) = vs @ [v]" using assms(2,3,4) by simp
  have pre: "(\<forall>x \<in> set vs. \<not> float_lt x PosInf) \<and> best = PosInf \<and> best_epoch ts = 0
           \<or> (\<exists>i. best_at vs i \<and> best_epoch ts = Suc i \<and> best = vs ! i)"
    using assms(1) unfolding best_inv_def assms(2) .
  note step = best_inv_step_lists [OF pre, of v]
  have imp: "below_best v best \<longleftrightarrow> improves (vs @ [v]) (length vs)"
    using step by (simp add: below_best_def)
  show ?thesis
  proof (cases "float_lt v best")
    case True
    then have at: "best_at (vs @ [v]) (length vs)" using step by blast
    have "best_inv ts1 v"
      unfolding best_inv_def vs1 using at assms(5) True
      by (intro disjI2 exI [of _ "length vs"]) (simp add: below_best_def)
    then show ?thesis using True imp by (simp add: below_best_def)
  next
    case False
    then have keep: "(\<forall>x \<in> set (vs @ [v]). \<not> float_lt x PosInf) \<and> best = PosInf
                      \<and> best_epoch ts = 0
            \<or> (\<exists>i. best_at (vs @ [v]) i \<and> best_epoch ts = Suc i \<and> best = (vs @ [v]) ! i)"
      using step by blast
    have be: "best_epoch ts1 = best_epoch ts" using assms(5) False by (simp add: below_best_def)
    have "best_inv ts1 best" unfolding best_inv_def vs1 be using keep .
    then show ?thesis using False imp by (simp add: below_best_def)
  qed
qed

subsection \<open>The disk during an epoch\<close>

lemma store_disk:
  "disk (store (Some p) e c) = disk c @ [(p, Checkpoint (params (model c)))]"
  "disk (store None (Some n) c) = disk c @ [(ModelEpochPath n, Checkpoint (params (model c)))]"
  "model (store a e c) = model c"
  by (simp_all add: store_def)

lemma store_is_disk_update: "\<exists>d. store a e c = c\<lparr>disk := d\<rparr>"
  unfolding store_def Let_def by (rule exI) (rule refl)

lemma fit_batch_disk: "disk (snd (fit_batch R c x y)) = disk c"
  by (simp add: fit_batch_def Let_def split: prod.splits)

lemma fit_batches_disk: "disk (snd (fit_batches R l a c)) = disk c"
proof (induction l arbitrary: a c)
  case Nil
  then show ?case by simp
next
  case (Cons b l)
  obtain loss c1 where fb: "fit_batch R c (batch_to_input b) (batch_to_score b) = (loss, c1)"
    by (cases "fit_batch R c (batch_to_input b) (batch_to_score b)")
  have "disk c1 = disk c" using fit_batch_disk [of R c] fb by (metis snd_conv)
  then show ?case using fb Cons.IH [of "float_add a loss" c1] by simp
qed

lemma fit_epoch_disk: "disk (snd (fit_epoch R c)) = disk c"
proof (cases "train_loader c")
  case None
  then show ?thesis by (simp add: fit_epoch_def Let_def)
next
  case (Some l)
  have "disk (snd (fit_batches R l (Finite 0) (c\<lparr>model := (model c)\<lparr>training := True\<rparr>\<rparr>))) = disk c"
    by (simp add: fit_batches_disk)
  then show ?thesis using Some
    by (auto simp add: fit_epoch_def Let_def split: prod.splits)
qed

lemma val_epoch_disk: "disk (snd (val_epoch R c)) = disk c"
  by (simp add: val_epoch_def Let_def split: option.splits)

lemma epoch_state_disk: "disk (epoch_state R c) = disk c"
  by (simp add: epoch_state_def val_epoch_disk fit_epoch_disk)

text \<open>An epoch does not read the disk: what it does to the model is the same on any disk.\<close>

lemma fit_batch_disk_update:
  "fit_batch R (c\<lparr>disk := d\<rparr>) x y
     = (fst (fit_batch R c x y), (snd (fit_batch R c x y))\<lparr>disk := d\<rparr>)"
  by (simp add: fit_batch_def Let_def split: prod.splits)

lemma fit_batches_disk_update:
  "fit_batches R l a (c\<lparr>disk := d\<rparr>)
     = (fst (fit_batches R l a c), (snd (fit_batches R l a c))\<lparr>disk := d\<rparr>)"
proof (induction l arbitrary: a c)
  case Nil
  then show ?case by simp
next
  case (Cons b l)
  obtain loss c1 where fb: "fit_batch R c (batch_to_input b) (batch_to_score b) = (loss, c1)"
    by (cases "fit_batch R c (batch_to_input b) (batch_to_score b)")
  have fb': "fit_batch R (c\<lparr>disk := d\<rparr>) (batch_to_input b) (batch_to_score b)
               = (loss, c1\<lparr>disk := d\<rparr>)"
    using fit_batch_disk_update [where R = R and c = c and d = d and x = "batch_to_input b"
        and y = "batch_to_score b"] fb by simp
  show ?case using fb fb' Cons.IH [of "float_add a loss" c1] by simp
qed

lemma val_batches_model: "model c' = model c \<Longrightarrow> val_batches R l a c' = val_batches R l a c"
  by (induction l arbitrary: a) (simp_all add: val_batch_def)

lemma fit_epoch_disk_update:
  "fit_epoch R (c\<lparr>disk := d\<rparr>) = (fst (fit_epoch R c), (snd (fit_epoch R c))\<lparr>disk := d\<rparr>)"
proof (cases "train_loader c")
  case None
  then show ?thesis by (simp add: fit_epoch_def Let_def)
next
  case (Some l)
  let ?c1 = "c\<lparr>model := (model c)\<lparr>training := True\<rparr>\<rparr>"
  obtain a c2 where fb: "fit_batches R l (Finite 0) ?c1 = (a, c2)"
    by (cases "fit_batches R l (Finite 0) ?c1")
  have sw: "c\<lparr>disk := d, model := (model c)\<lparr>training := True\<rparr>\<rparr> = ?c1\<lparr>disk := d\<rparr>"
    by simp
  have fb': "fit_batches R l (Finite 0) (c\<lparr>disk := d, model := (model c)\<lparr>training := True\<rparr>\<rparr>)
               = (a, c2\<lparr>disk := d\<rparr>)"
    unfolding sw
    using fit_batches_disk_update [where R = R and l = l and a = "Finite 0" and c = ?c1
        and d = d] fb by simp
  show ?thesis using Some fb fb' by (simp add: fit_epoch_def Let_def)
qed

lemma val_epoch_disk_update:
  "val_epoch R (c\<lparr>disk := d\<rparr>) = (fst (val_epoch R c), (snd (val_epoch R c))\<lparr>disk := d\<rparr>)"
proof -
  have vb: "val_batches R l (Finite 0) (c\<lparr>disk := d, model := (model c)\<lparr>training := False\<rparr>\<rparr>)
              = val_batches R l (Finite 0) (c\<lparr>model := (model c)\<lparr>training := False\<rparr>\<rparr>)" for l
    by (rule val_batches_model) simp
  show ?thesis by (simp add: val_epoch_def Let_def vb split: option.splits)
qed

lemma epoch_state_disk_update: "epoch_state R (c\<lparr>disk := d\<rparr>) = (epoch_state R c)\<lparr>disk := d\<rparr>"
  by (simp add: epoch_state_def fit_epoch_disk_update val_epoch_disk_update)

lemma epoch_states_disk_update:
  "(epoch_state R ^^ k) (c\<lparr>disk := d\<rparr>) = ((epoch_state R ^^ k) c)\<lparr>disk := d\<rparr>"
  by (induction k) (simp_all add: epoch_state_disk_update)

lemma epoch_states_after_store:
  "model ((epoch_state R ^^ k) (store a e (epoch_state R c)))
     = model ((epoch_state R ^^ Suc k) c)"
proof -
  obtain d where s: "store a e (epoch_state R c) = (epoch_state R c)\<lparr>disk := d\<rparr>"
    using store_is_disk_update by blast
  have "(epoch_state R ^^ k) (epoch_state R c) = (epoch_state R ^^ Suc k) c"
    by (simp add: funpow_swap1)
  then show ?thesis unfolding s epoch_states_disk_update by simp
qed

subsection \<open>The loop of fit\<close>

lemma fit_epochs_Cons_Inr:
  assumes "fit_epochs R (ep # es) ts best c = (Inr ts', c')"
  shows "\<exists>t_loss v_loss.
      fit_epochs R es
        (if below_best v_loss best
         then ts\<lparr>epoch_stats := epoch_stats ts
                  @ [\<lparr> epoch = ep + 1, train_loss = t_loss, test_loss = v_loss \<rparr>],
                 best_epoch := ep + 1\<rparr>
         else ts\<lparr>epoch_stats := epoch_stats ts
                  @ [\<lparr> epoch = ep + 1, train_loss = t_loss, test_loss = v_loss \<rparr>]\<rparr>)
        (if below_best v_loss best then v_loss else best)
        (if below_best v_loss best
         then store (Some BestModelPath) None (store None (Some (ep + 1)) (epoch_state R c))
         else store None (Some (ep + 1)) (epoch_state R c))
      = (Inr ts', c')"
proof -
  obtain r1 c1 where f: "fit_epoch R c = (r1, c1)" by (cases "fit_epoch R c")
  obtain r2 c2 where v: "val_epoch R c1 = (r2, c2)" by (cases "val_epoch R c1")
  obtain t_loss where r1: "r1 = Inr t_loss"
    using assms f by (cases r1) auto
  obtain v_loss where r2: "r2 = Inr v_loss"
    using assms f v r1 by (cases r2) auto
  have no: "\<not> (math_exp_overflows t_loss \<or> math_exp_overflows v_loss)"
    using assms f v r1 r2 by (auto simp add: Let_def)
  have c2: "epoch_state R c = c2" using f v by (simp add: epoch_state_def)
  show ?thesis
  proof (cases "below_best v_loss best")
    case True
    then show ?thesis
      unfolding c2 using assms f v r1 r2 no by (intro exI [of _ t_loss] exI [of _ v_loss])
        (simp add: Let_def)
  next
    case False
    then show ?thesis
      unfolding c2 using assms f v r1 r2 no by (intro exI [of _ t_loss] exI [of _ v_loss])
        (simp add: Let_def)
  qed
qed

lemma fit_epochs_trace:
  assumes "fit_epochs R [m..<n] ts best c = (Inr ts', c')"
    and "length (epoch_stats ts) = m" and "best_inv ts best"
  shows "\<exists>news best'.
           epoch_stats ts' = epoch_stats ts @ news \<and> length news = n - m \<and>
           map epoch news = map Suc [m..<n] \<and>
           disk c' = disk c @ concat (map (\<lambda>k. epoch_writes (map test_loss (epoch_stats ts'))
                                                (m + k, params (model ((epoch_state R ^^ Suc k) c))))
                                         [0..<n - m]) \<and>
           best_inv ts' best'"
  using assms
proof (induction "n - m" arbitrary: m ts best c)
  case 0
  then have e: "[m..<n] = []" by simp
  have "fit_epochs R [] ts best c = (Inr ts', c')" using "0.prems"(1) unfolding e .
  then have "ts' = ts" "c' = c" by simp_all
  then show ?case using "0.prems"(3) "0.hyps" e by auto
next
  case (Suc q)
  have mn: "m < n" using Suc.hyps(2) by simp
  then have upt: "[m..<n] = m # [Suc m..<n]" by (simp add: upt_conv_Cons)
  let ?vs = "map test_loss (epoch_stats ts)"
  let ?c2 = "epoch_state R c"
  obtain t_loss v_loss where
    rec: "fit_epochs R [Suc m..<n]
        (if below_best v_loss best
         then ts\<lparr>epoch_stats := epoch_stats ts
                  @ [\<lparr> epoch = m + 1, train_loss = t_loss, test_loss = v_loss \<rparr>],
                 best_epoch := m + 1\<rparr>
         else ts\<lparr>epoch_stats := epoch_stats ts
                  @ [\<lparr> epoch = m + 1, train_loss = t_loss, test_loss = v_loss \<rparr>]\<rparr>)
        (if below_best v_loss best then v_loss else best)
        (if below_best v_loss best
         then store (Some BestModelPath) None (store None (Some (m + 1)) ?c2)
         else store None (Some (m + 1)) ?c2)
      = (Inr ts', c')"
    using fit_epochs_Cons_Inr [of R m "[Suc m..<n]" ts best c ts' c'] Suc.prems(1) upt
    by auto
  define st where "st = \<lparr> epoch = m + 1, train_loss = t_loss, test_loss = v_loss \<rparr>"
  define ts1 where "ts1 = (if below_best v_loss best
         then ts\<lparr>epoch_stats := epoch_stats ts @ [st], best_epoch := m + 1\<rparr>
         else ts\<lparr>epoch_stats := epoch_stats ts @ [st]\<rparr>)"
  define best1 where "best1 = (if below_best v_loss best then v_loss else best)"
  define c3 where "c3 = (if below_best v_loss best
         then store (Some BestModelPath) None (store None (Some (m + 1)) ?c2)
         else store None (Some (m + 1)) ?c2)"
  have rec1: "fit_epochs R [Suc m..<n] ts1 best1 c3 = (Inr ts', c')"
    using rec unfolding ts1_def best1_def c3_def st_def .
  have e1: "epoch_stats ts1 = epoch_stats ts @ [st]" by (simp add: ts1_def)
  have l1: "length (epoch_stats ts1) = Suc m" using e1 Suc.prems(2) by simp
  have v1: "test_loss st = v_loss" "epoch st = Suc m" by (simp_all add: st_def)
  have lv: "length ?vs = m" using Suc.prems(2) by simp
  have b1: "best_epoch ts1 = (if below_best v_loss best then Suc (length ?vs) else best_epoch ts)"
    using lv by (simp add: ts1_def)
  have step: "best_inv ts1 best1 \<and> (below_best v_loss best \<longleftrightarrow> improves (?vs @ [v_loss]) (length ?vs))"
    unfolding best1_def
    using best_inv_step [OF Suc.prems(3) refl e1 v1(1) b1] .
  have q: "q = n - Suc m" using Suc.hyps(2) by simp
  let ?vs' = "map test_loss (epoch_stats ts')"
  obtain news best' where ih:
    "epoch_stats ts' = epoch_stats ts1 @ news" "length news = n - Suc m"
    "map epoch news = map Suc [Suc m..<n]"
    "disk c' = disk c3 @ concat (map (\<lambda>k. epoch_writes ?vs'
                                        (Suc m + k, params (model ((epoch_state R ^^ Suc k) c3))))
                                    [0..<n - Suc m])"
    "best_inv ts' best'"
    using Suc.hyps(1) [OF q rec1 l1] step by blast
  have vs': "?vs' = (?vs @ [v_loss]) @ map test_loss news"
    using ih(1) e1 v1(1) by simp
  have imp: "improves ?vs' m \<longleftrightarrow> below_best v_loss best"
    unfolding vs' using improves_append [of m "?vs @ [v_loss]" "map test_loss news"] step lv
    by simp
  have d3: "disk c3 = disk c @ epoch_writes ?vs' (m, params (model ?c2))"
    using imp by (simp add: c3_def epoch_writes_def store_disk epoch_state_disk)
  have m3: "model ((epoch_state R ^^ Suc k) c3) = model ((epoch_state R ^^ Suc (Suc k)) c)" for k
  proof (cases "below_best v_loss best")
    case True
    obtain d where s: "store (Some BestModelPath) None (store None (Some (m + 1)) ?c2)
                        = (store None (Some (m + 1)) ?c2)\<lparr>disk := d\<rparr>"
      using store_is_disk_update by blast
    have c3: "c3 = (store None (Some (m + 1)) ?c2)\<lparr>disk := d\<rparr>"
      using True s by (simp add: c3_def)
    have "model ((epoch_state R ^^ Suc k) c3)
            = model ((epoch_state R ^^ Suc k) (store None (Some (m + 1)) ?c2))"
      unfolding c3 epoch_states_disk_update by simp
    then show ?thesis using epoch_states_after_store [where R = R and k = "Suc k" and a = None
          and e = "Some (m + 1)" and c = c] by simp
  next
    case False
    then show ?thesis
      using epoch_states_after_store [where R = R and k = "Suc k" and a = None
          and e = "Some (m + 1)" and c = c] by (simp add: c3_def)
  qed
  have nm: "n - m = Suc (n - Suc m)" using mn by simp
  have writes: "concat (map (\<lambda>k. epoch_writes ?vs'
                    (m + k, params (model ((epoch_state R ^^ Suc k) c)))) [0..<n - m])
      = epoch_writes ?vs' (m, params (model ?c2))
        @ concat (map (\<lambda>k. epoch_writes ?vs'
                    (Suc m + k, params (model ((epoch_state R ^^ Suc k) c3)))) [0..<n - Suc m])"
    unfolding nm map_upt_Suc using m3 by simp
  have "epoch_stats ts' = epoch_stats ts @ (st # news)" using ih(1) e1 by simp
  moreover have "length (st # news) = n - m" using ih(2) mn by simp
  moreover have "map epoch (st # news) = map Suc [m..<n]" using ih(3) v1(2) upt by simp
  moreover have "disk c' = disk c @ concat (map (\<lambda>k. epoch_writes ?vs'
                    (m + k, params (model ((epoch_state R ^^ Suc k) c)))) [0..<n - m])"
    unfolding writes using ih(4) d3 by simp
  ultimately show ?case using ih(5) by blast
qed

lemma fit_Inr:
  assumes "fit R c = (Inr ts, c')"
  shows "\<exists>ts1 c1.
           fit_epochs R [0..<num_epochs c]
             (TrainStats_init (TrainStats_cls R) (now c) 0 [] None None) PosInf c = (Inr ts1, c1) \<and>
           ts = TrainStats_to_json (now c1) ts1 \<and>
           c' = c1\<lparr>disk := disk c1 @ [(TrainStatsPath, TrainStatsJson ts)]\<rparr>"
  using assms
  by (auto simp add: fit_def Let_def split: if_splits prod.splits sum.splits)

lemma fit_stats_and_files:
  assumes "fit R c = (Inr ts, c')"
  shows "map epoch (epoch_stats ts) = map Suc [0..<num_epochs c]
     \<and> disk c' = disk c
           @ concat (map (\<lambda>i. epoch_writes (map test_loss (epoch_stats ts))
                                 (i, params (model ((epoch_state R ^^ Suc i) c))))
                       [0..<num_epochs c])
           @ [(TrainStatsPath, TrainStatsJson ts)]
     \<and> ((\<exists>i < num_epochs c. float_lt (map test_loss (epoch_stats ts) ! i) PosInf) \<longrightarrow>
          (\<exists>i < num_epochs c. best_epoch ts = i + 1 \<and>
             float_lt (map test_loss (epoch_stats ts) ! i) PosInf \<and>
             (\<forall>j < i. map test_loss (epoch_stats ts) ! j = NaN \<or>
                float_lt (map test_loss (epoch_stats ts) ! i) (map test_loss (epoch_stats ts) ! j)) \<and>
             (\<forall>j < num_epochs c. map test_loss (epoch_stats ts) ! j = NaN \<or>
                float_le (map test_loss (epoch_stats ts) ! i) (map test_loss (epoch_stats ts) ! j))))
     \<and> ((\<forall>i < num_epochs c. \<not> float_lt (map test_loss (epoch_stats ts) ! i) PosInf) \<longrightarrow>
          best_epoch ts = 0)"
proof -
  let ?init = "TrainStats_init (TrainStats_cls R) (now c) 0 [] None None"
  obtain ts1 c1 where run: "fit_epochs R [0..<num_epochs c] ?init PosInf c = (Inr ts1, c1)"
    and ts: "ts = TrainStats_to_json (now c1) ts1"
    and c': "c' = c1\<lparr>disk := disk c1 @ [(TrainStatsPath, TrainStatsJson ts)]\<rparr>"
    using fit_Inr [OF assms] by blast
  have i0: "length (epoch_stats ?init) = 0" "best_inv ?init PosInf"
    by (simp_all add: TrainStats_init_def best_inv_def)
  obtain news best' where tr:
    "epoch_stats ts1 = epoch_stats ?init @ news" "length news = num_epochs c - 0"
    "map epoch news = map Suc [0..<num_epochs c]"
    "disk c1 = disk c @ concat (map (\<lambda>k. epoch_writes (map test_loss (epoch_stats ts1))
                                     (0 + k, params (model ((epoch_state R ^^ Suc k) c))))
                                   [0..<num_epochs c - 0])"
    "best_inv ts1 best'"
    using fit_epochs_trace [OF run i0(1) i0(2)] by blast
  have same: "epoch_stats ts = epoch_stats ts1" "best_epoch ts = best_epoch ts1"
    by (simp_all add: ts TrainStats_to_json_def)
  have es: "epoch_stats ts1 = news" using tr(1) by (simp add: TrainStats_init_def)
  let ?vs = "map test_loss (epoch_stats ts1)"
  have len: "length ?vs = num_epochs c" using es tr(2) by simp
  have "map epoch (epoch_stats ts) = map Suc [0..<num_epochs c]"
    using same(1) es tr(3) by simp
  moreover have "disk c' = disk c
           @ concat (map (\<lambda>i. epoch_writes (map test_loss (epoch_stats ts))
                                 (i, params (model ((epoch_state R ^^ Suc i) c))))
                       [0..<num_epochs c])
           @ [(TrainStatsPath, TrainStatsJson ts)]"
    using tr(4) same(1) c' by simp
  moreover have "\<exists>i < num_epochs c. best_epoch ts = i + 1 \<and>
             float_lt (map test_loss (epoch_stats ts) ! i) PosInf \<and>
             (\<forall>j < i. map test_loss (epoch_stats ts) ! j = NaN \<or>
                float_lt (map test_loss (epoch_stats ts) ! i) (map test_loss (epoch_stats ts) ! j)) \<and>
             (\<forall>j < num_epochs c. map test_loss (epoch_stats ts) ! j = NaN \<or>
                float_le (map test_loss (epoch_stats ts) ! i) (map test_loss (epoch_stats ts) ! j))"
    if some: "\<exists>i < num_epochs c. float_lt (map test_loss (epoch_stats ts) ! i) PosInf"
  proof -
    obtain k where k: "k < length ?vs" "float_lt (?vs ! k) PosInf"
      using some same(1) len by auto
    have "?vs ! k \<in> set ?vs" using k(1) by (rule nth_mem)
    then have "\<not> (\<forall>v \<in> set ?vs. \<not> float_lt v PosInf)" using k(2) by blast
    then obtain i where i: "best_at ?vs i" "best_epoch ts1 = Suc i"
      using tr(5) unfolding best_inv_def by blast
    have "i < num_epochs c" using i(1) len by (simp add: best_at_def)
    moreover have "float_lt (?vs ! i) PosInf" using i(1) unfolding best_at_def by blast
    moreover have "\<forall>j < i. ?vs ! j = NaN \<or> float_lt (?vs ! i) (?vs ! j)"
      using i(1) unfolding best_at_def by blast
    moreover have "\<forall>j < num_epochs c. ?vs ! j = NaN \<or> float_le (?vs ! i) (?vs ! j)"
      using i(1) unfolding best_at_def len by blast
    ultimately show ?thesis using i(2) same by (intro exI [of _ i]) simp
  qed
  moreover have "best_epoch ts = 0"
    if none: "\<forall>i < num_epochs c. \<not> float_lt (map test_loss (epoch_stats ts) ! i) PosInf"
  proof -
    have "\<not> best_at ?vs i" for i
      using none same(1) len by (auto simp add: best_at_def)
    then have "best_epoch ts1 = 0" using tr(5) unfolding best_inv_def by blast
    then show ?thesis using same(2) by simp
  qed
  ultimately show ?thesis by blast
qed

text \<open>
  Claim C4, as stated, fails: when the criterion yields NaN for every batch, the
  validation loss of every epoch is NaN and \<open>val_loss < best_val_set\<close> is false
  in every epoch.  After two epochs fit returns stats with the epochs 1 and 2 and
  \<open>best_epoch\<close> 0, which is the number of no epoch that ran, and the files
  written are the two epoch checkpoints and the stats: there is no best checkpoint.
\<close>

theorem fit_nan_losses_no_best_epoch:
  "num_epochs two_epoch_classifier = 2 \<and>
   fst (fit nan_runtime two_epoch_classifier)
     = Inr \<lparr> best_epoch = 0,
             epoch_stats = [\<lparr> epoch = 1, train_loss = NaN, test_loss = NaN \<rparr>,
                            \<lparr> epoch = 2, train_loss = NaN, test_loss = NaN \<rparr>],
             start_time = 100, end_time = 200 \<rparr> \<and>
   map fst (disk (snd (fit nan_runtime two_epoch_classifier)))
     = [ModelEpochPath 1, ModelEpochPath 2, TrainStatsPath]"
  by (simp add: fit_def nan_runtime_def two_epoch_classifier_def toy_runtime_def
      toy_classifier_def upt_rec fit_epoch_def
      val_epoch_def fit_batch_def val_batch_def module_call_def batch_to_input_def
      batch_to_score_def store_def below_best_def weight_def
      TrainStats_init_def TrainStats_classdef_def TrainStats_to_json_def py_int_def
      math_exp_overflows_def Let_def)

text \<open>
  Claim C4, amended.  With non-empty loaders and a criterion whose losses are finite
  and bounded fit returns.  Whenever fit returns, its stats hold one entry per epoch,
  numbered from 1.  The files it has written are, epoch by epoch, the checkpoint of
  the epoch followed by the best-model checkpoint exactly when the validation loss of
  that epoch is below \<open>+inf\<close> and strictly below the loss of every earlier epoch
  whose loss is a number (a tie, a NaN loss and a loss \<open>+inf\<close> write nothing);
  both files hold the parameters of the model after the training of that epoch; at
  the end the training stats are written.  If the validation loss of some epoch is
  below \<open>+inf\<close> (as it is when the losses are finite and an epoch ran),
  \<open>best_epoch\<close> is the number of the earliest epoch whose validation loss is the
  least among the losses that are numbers.  If no validation loss is below
  \<open>+inf\<close> (every loss is NaN or \<open>+inf\<close>, or no epoch ran), \<open>best_epoch\<close> is 0.
\<close>

theorem fit_best_checkpoint:
  "(train_loader c = Some trn \<and> trn \<noteq> [] \<and> val_loader c = Some vld \<and> vld \<noteq> [] \<and>
    bounded_criterion R \<longrightarrow> (\<exists>ts c'. fit R c = (Inr ts, c')))
   \<and> (fit R c = (Inr ts, c') \<longrightarrow>
     map epoch (epoch_stats ts) = map Suc [0..<num_epochs c]
     \<and> disk c' = disk c
           @ concat (map (\<lambda>i. epoch_writes (map test_loss (epoch_stats ts))
                                 (i, params (model ((epoch_state R ^^ Suc i) c))))
                       [0..<num_epochs c])
           @ [(TrainStatsPath, TrainStatsJson ts)]
     \<and> ((\<exists>i < num_epochs c. float_lt (map test_loss (epoch_stats ts) ! i) PosInf) \<longrightarrow>
          (\<exists>i < num_epochs c. best_epoch ts = i + 1 \<and>
             float_lt (map test_loss (epoch_stats ts) ! i) PosInf \<and>
             (\<forall>j < i. map test_loss (epoch_stats ts) ! j = NaN \<or>
                float_lt (map test_loss (epoch_stats ts) ! i) (map test_loss (epoch_stats ts) ! j)) \<and>
             (\<forall>j < num_epochs c. map test_loss (epoch_stats ts) ! j = NaN \<or>
                float_le (map test_loss (epoch_stats ts) ! i) (map test_loss (epoch_stats ts) ! j))))
     \<and> ((\<forall>i < num_epochs c. \<not> float_lt (map test_loss (epoch_stats ts) ! i) PosInf) \<longrightarrow>
          best_epoch ts = 0))"
  (is "?returns \<and> (?run \<longrightarrow> ?facts)")
proof (rule conjI)
  show ?returns
  proof (rule impI)
    assume "train_loader c = Some trn \<and> trn \<noteq> [] \<and> val_loader c = Some vld \<and> vld \<noteq> [] \<and>
      bounded_criterion R"
    then have "\<exists>ts. fst (fit R c) = Inr ts"
      using fit_returns [of c trn vld R] by blast
    then show "\<exists>ts c'. fit R c = (Inr ts, c')"
      by (cases "fit R c") auto
  qed
  show "?run \<longrightarrow> ?facts"
  proof (rule impI)
    assume ?run
    then show ?facts by (rule fit_stats_and_files)
  qed
qed

theorem fit_best_checkpoint_witness:
  "(train_loader toy_classifier = Some [[(1, 5 / 2)]] \<and> [[(1 :: real, 5 / 2 :: real)]] \<noteq> [] \<and>
    val_loader toy_classifier = Some [[(1, 5 / 2)]] \<and> [[(1 :: real, 5 / 2 :: real)]] \<noteq> [] \<and>
    bounded_criterion toy_runtime) \<and>
   (\<exists>ts c'. fit toy_runtime toy_classifier = (Inr ts, c') \<and>
      map test_loss (epoch_stats ts) = [Finite (9 / 4), Finite (1 / 4), Finite (1 / 4), Finite (9 / 4)] \<and>
      best_epoch ts = 2 \<and>
      disk c' = [(ModelEpochPath 1, Checkpoint [(''w'', [1])]),
                 (BestModelPath, Checkpoint [(''w'', [1])]),
                 (ModelEpochPath 2, Checkpoint [(''w'', [2])]),
                 (BestModelPath, Checkpoint [(''w'', [2])]),
                 (ModelEpochPath 3, Checkpoint [(''w'', [3])]),
                 (ModelEpochPath 4, Checkpoint [(''w'', [4])]),
                 (TrainStatsPath, TrainStatsJson ts)] \<and>
      disk c' = disk toy_classifier
           @ concat (map (\<lambda>i. epoch_writes (map test_loss (epoch_stats ts))
                                 (i, params (model ((epoch_state toy_runtime ^^ Suc i) toy_classifier))))
                       [0..<num_epochs toy_classifier])
           @ [(TrainStatsPath, TrainStatsJson ts)] \<and>
      (\<exists>i < num_epochs toy_classifier. best_epoch ts = i + 1 \<and>
         float_lt (map test_loss (epoch_stats ts) ! i) PosInf \<and>
         (\<forall>j < i. map test_loss (epoch_stats ts) ! j = NaN \<or>
            float_lt (map test_loss (epoch_stats ts) ! i) (map test_loss (epoch_stats ts) ! j)) \<and>
         (\<forall>j < num_epochs toy_classifier. map test_loss (epoch_stats ts) ! j = NaN \<or>
            float_le (map test_loss (epoch_stats ts) ! i) (map test_loss (epoch_stats ts) ! j)))) \<and>
   (\<exists>ts c'. fit nan_runtime two_epoch_classifier = (Inr ts, c') \<and>
      map test_loss (epoch_stats ts) = [NaN, NaN] \<and> best_epoch ts = 0)"
proof -
  have h: "train_loader toy_classifier = Some [[(1, 5 / 2)]] \<and>
           [[(1 :: real, 5 / 2 :: real)]] \<noteq> [] \<and>
           val_loader toy_classifier = Some [[(1, 5 / 2)]] \<and>
           [[(1 :: real, 5 / 2 :: real)]] \<noteq> [] \<and>
           bounded_criterion toy_runtime"
    by (simp add: toy_classifier_def toy_bounded)
  have returns: "\<exists>ts c'. fit toy_runtime toy_classifier = (Inr ts, c')"
    using fit_best_checkpoint [of toy_classifier "[[(1, 5 / 2)]]" "[[(1, 5 / 2)]]" toy_runtime,
        THEN conjunct1, THEN mp, OF h] .
  have "\<exists>ts c'. fit toy_runtime toy_classifier = (Inr ts, c') \<and>
      map test_loss (epoch_stats ts) = [Finite (9 / 4), Finite (1 / 4), Finite (1 / 4), Finite (9 / 4)] \<and>
      best_epoch ts = 2 \<and>
      disk c' = [(ModelEpochPath 1, Checkpoint [(''w'', [1])]),
                 (BestModelPath, Checkpoint [(''w'', [1])]),
                 (ModelEpochPath 2, Checkpoint [(''w'', [2])]),
                 (BestModelPath, Checkpoint [(''w'', [2])]),
                 (ModelEpochPath 3, Checkpoint [(''w'', [3])]),
                 (ModelEpochPath 4, Checkpoint [(''w'', [4])]),
                 (TrainStatsPath, TrainStatsJson ts)]"
    by (simp add: fit_def toy_runtime_def toy_classifier_def upt_rec fit_epoch_def
        val_epoch_def fit_batch_def val_batch_def module_call_def batch_to_input_def
        batch_to_score_def store_def below_best_def weight_def mse_loss_def
        TrainStats_init_def TrainStats_classdef_def TrainStats_to_json_def py_int_def
        math_exp_overflows_def exp_overflow_bound_def power2_eq_square Let_def)
  then obtain ts c' where run: "fit toy_runtime toy_classifier = (Inr ts, c')"
    and rest: "map test_loss (epoch_stats ts) = [Finite (9 / 4), Finite (1 / 4), Finite (1 / 4), Finite (9 / 4)]"
      "best_epoch ts = 2"
      "disk c' = [(ModelEpochPath 1, Checkpoint [(''w'', [1])]),
                 (BestModelPath, Checkpoint [(''w'', [1])]),
                 (ModelEpochPath 2, Checkpoint [(''w'', [2])]),
                 (BestModelPath, Checkpoint [(''w'', [2])]),
                 (ModelEpochPath 3, Checkpoint [(''w'', [3])]),
                 (ModelEpochPath 4, Checkpoint [(''w'', [4])]),
                 (TrainStatsPath, TrainStatsJson ts)]"
    by (elim exE conjE)
  note facts = fit_best_checkpoint [of toy_classifier "[]" "[]" toy_runtime ts c',
          THEN conjunct2, THEN mp, OF run]
  have files: "disk c' = disk toy_classifier
           @ concat (map (\<lambda>i. epoch_writes (map test_loss (epoch_stats ts))
                                 (i, params (model ((epoch_state toy_runtime ^^ Suc i) toy_classifier))))
                       [0..<num_epochs toy_classifier])
           @ [(TrainStatsPath, TrainStatsJson ts)]"
    using facts by (elim conjE) assumption
  have some: "\<exists>i < num_epochs toy_classifier. float_lt (map test_loss (epoch_stats ts) ! i) PosInf"
    unfolding rest(1) by (intro exI [of _ 0]) (simp add: toy_classifier_def)
  have th: "\<exists>i < num_epochs toy_classifier. best_epoch ts = i + 1 \<and>
         float_lt (map test_loss (epoch_stats ts) ! i) PosInf \<and>
         (\<forall>j < i. map test_loss (epoch_stats ts) ! j = NaN \<or>
            float_lt (map test_loss (epoch_stats ts) ! i) (map test_loss (epoch_stats ts) ! j)) \<and>
         (\<forall>j < num_epochs toy_classifier. map test_loss (epoch_stats ts) ! j = NaN \<or>
            float_le (map test_loss (epoch_stats ts) ! i) (map test_loss (epoch_stats ts) ! j))"
  proof -
    have "(\<exists>i < num_epochs toy_classifier. float_lt (map test_loss (epoch_stats ts) ! i) PosInf) \<longrightarrow>
      (\<exists>i < num_epochs toy_classifier. best_epoch ts = i + 1 \<and>
         float_lt (map test_loss (epoch_stats ts) ! i) PosInf \<and>
         (\<forall>j < i. map test_loss (epoch_stats ts) ! j = NaN \<or>
            float_lt (map test_loss (epoch_stats ts) ! i) (map test_loss (epoch_stats ts) ! j)) \<and>
         (\<forall>j < num_epochs toy_classifier. map test_loss (epoch_stats ts) ! j = NaN \<or>
            float_le (map test_loss (epoch_stats ts) ! i) (map test_loss (epoch_stats ts) ! j)))"
      using facts by (elim conjE) assumption
    then show ?thesis using some by (rule mp)
  qed
  have toy: "\<exists>ts c'. fit toy_runtime toy_classifier = (Inr ts, c') \<and>
      map test_loss (epoch_stats ts) = [Finite (9 / 4), Finite (1 / 4), Finite (1 / 4), Finite (9 / 4)] \<and>
      best_epoch ts = 2 \<and>
      disk c' = [(ModelEpochPath 1, Checkpoint [(''w'', [1])]),
                 (BestModelPath, Checkpoint [(''w'', [1])]),
                 (ModelEpochPath 2, Checkpoint [(''w'', [2])]),
                 (BestModelPath, Checkpoint [(''w'', [2])]),
                 (ModelEpochPath 3, Checkpoint [(''w'', [3])]),
                 (ModelEpochPath 4, Checkpoint [(''w'', [4])]),
                 (TrainStatsPath, TrainStatsJson ts)] \<and>
      disk c' = disk toy_classifier
           @ concat (map (\<lambda>i. epoch_writes (map test_loss (epoch_stats ts))
                                 (i, params (model ((epoch_state toy_runtime ^^ Suc i) toy_classifier))))
                       [0..<num_epochs toy_classifier])
           @ [(TrainStatsPath, TrainStatsJson ts)] \<and>
      (\<exists>i < num_epochs toy_classifier. best_epoch ts = i + 1 \<and>
         float_lt (map test_loss (epoch_stats ts) ! i) PosInf \<and>
         (\<forall>j < i. map test_loss (epoch_stats ts) ! j = NaN \<or>
            float_lt (map test_loss (epoch_stats ts) ! i) (map test_loss (epoch_stats ts) ! j)) \<and>
         (\<forall>j < num_epochs toy_classifier. map test_loss (epoch_stats ts) ! j = NaN \<or>
            float_le (map test_loss (epoch_stats ts) ! i) (map test_loss (epoch_stats ts) ! j)))"
    using run rest files th by (intro exI [of _ ts] exI [of _ c'] conjI)
  have "\<exists>ts c'. fit nan_runtime two_epoch_classifier = (Inr ts, c') \<and>
      map test_loss (epoch_stats ts) = [NaN, NaN]"
    by (simp add: fit_def nan_runtime_def two_epoch_classifier_def toy_runtime_def
      toy_classifier_def upt_rec fit_epoch_def
      val_epoch_def fit_batch_def val_batch_def module_call_def batch_to_input_def
      batch_to_score_def store_def below_best_def weight_def
      TrainStats_init_def TrainStats_classdef_def TrainStats_to_json_def py_int_def
      math_exp_overflows_def Let_def)
  then obtain ns nc where nrun: "fit nan_runtime two_epoch_classifier = (Inr ns, nc)"
    and nvs: "map test_loss (epoch_stats ns) = [NaN, NaN]"
    by (elim exE conjE)
  have none: "\<forall>i < num_epochs two_epoch_classifier.
      \<not> float_lt (map test_loss (epoch_stats ns) ! i) PosInf"
    unfolding nvs
    by (auto simp add: two_epoch_classifier_def toy_classifier_def less_Suc_eq numeral_2_eq_2)
  have nb: "best_epoch ns = 0"
  proof -
    have "(\<forall>i < num_epochs two_epoch_classifier.
             \<not> float_lt (map test_loss (epoch_stats ns) ! i) PosInf) \<longrightarrow> best_epoch ns = 0"
      using fit_best_checkpoint [of two_epoch_classifier "[]" "[]" nan_runtime ns nc,
          THEN conjunct2, THEN mp, OF nrun]
      by (elim conjE) assumption
    then show ?thesis using none by (rule mp)
  qed
  have nan: "\<exists>ts c'. fit nan_runtime two_epoch_classifier = (Inr ts, c') \<and>
      map test_loss (epoch_stats ts) = [NaN, NaN] \<and> best_epoch ts = 0"
    using nrun nvs nb by (intro exI [of _ ns] exI [of _ nc] conjI)
  show ?thesis by (rule conjI [OF h conjI [OF toy nan]])
qed
section \<open>Storing and loading the model\<close>

lemma reload_params:
  assumes "distinct (map fst a)" "map fst b = map fst a"
  shows "map (\<lambda>(k, v). (k, the (map_of a k))) b = a"
  using assms
proof (induction a arbitrary: b)
  case Nil
  then show ?case by simp
next
  case (Cons x a)
  obtain k v where x: "x = (k, v)" by (cases x)
  obtain y b' where b: "b = y # b'" using Cons.prems(2) by (cases b) auto
  obtain w where y: "y = (k, w)" using Cons.prems(2) b x by (cases y) auto
  have d: "distinct (map fst a)" and nk: "k \<notin> fst ` set a" using Cons.prems(1) x by auto
  have f: "map fst b' = map fst a" using Cons.prems(2) b by simp
  have "\<forall>p \<in> set b'. fst p \<noteq> k"
  proof
    fix p assume "p \<in> set b'"
    then have "fst p \<in> set (map fst b')" by simp
    then have "fst p \<in> fst ` set a" using f by simp
    then show "fst p \<noteq> k" using nk by auto
  qed
  then have "map (\<lambda>(k', v'). (k', the (map_of (x # a) k'))) b'
               = map (\<lambda>(k', v'). (k', the (map_of a k'))) b'"
    using x by (auto simp add: case_prod_unfold)
  also have "\<dots> = a" by (rule Cons.IH [OF d f])
  finally show ?case using b y x by simp
qed

lemma reload_sizes:
  assumes "distinct (map fst a)" "map fst b = map fst a"
    "map (\<lambda>p. length (snd p)) b = map (\<lambda>p. length (snd p)) a"
  shows "\<forall>(k, v) \<in> set b. map_option length (map_of a k) = Some (length v)"
proof -
  have "length b = length a" using assms(2) by (metis length_map)
  then show ?thesis using assms
  proof (induction b a rule: list_induct2)
    case Nil
    then show ?case by simp
  next
    case (Cons y b x a)
    have nk: "fst x \<notin> fst ` set a" using Cons.prems(1) by auto
    have sub: "fst ` set b = fst ` set a" using Cons.prems(2) by (metis list.sel(3) list.set_map list.simps(9))
    have ih: "\<forall>(k, v) \<in> set b. map_option length (map_of a k) = Some (length v)"
      using Cons.IH Cons.prems by simp
    have nb: "\<forall>p \<in> set b. fst p \<noteq> fst x" using nk sub by (metis imageI)
    have hd: "fst y = fst x" "length (snd y) = length (snd x)" using Cons.prems by simp_all
    show ?case
      using nb hd ih by (auto simp add: case_prod_unfold)
  qed
qed

text \<open>
  Claim C7.  \<open>store(path)\<close> writes a checkpoint that holds the state dict of the
  model and nothing else.  \<open>load(path)\<close> on a classifier that sees this file and
  whose model has the same architecture succeeds; afterwards its model has the stored
  parameter values and, in either mode, gives the outputs of the stored model for the
  same input, while its optimizer and its mode are what they were before the load.
\<close>

theorem store_load_roundtrip:
  assumes "same_architecture (model c1) (model c2)"
    and "distinct (map fst (params (model c1)))"
    and "disk c2 = disk (store (Some p) None c1)"
  shows "disk (store (Some p) None c1) = disk c1 @ [(p, Checkpoint (params (model c1)))]
     \<and> (\<exists>c2'. load p c2 = (Inr (), c2') \<and>
           params (model c2') = params (model c1) \<and>
           (\<forall>tr xs. forward R (params (model c2')) tr xs
                      = forward R (params (model c1)) tr xs) \<and>
           module_call R (model c2') xs
             = module_call R ((model c1)\<lparr>training := training (model c2)\<rparr>) xs \<and>
           training (model c2') = training (model c2) \<and>
           optimizer c2' = optimizer c2 \<and>
           disk c2' = disk c2)"
proof
  show w: "disk (store (Some p) None c1) = disk c1 @ [(p, Checkpoint (params (model c1)))]"
    by (simp add: store_def)
  let ?sd = "params (model c1)"
  let ?m = "(model c2)\<lparr>params := ?sd\<rparr>"
  have r: "read_file (disk c2) p = Some (Checkpoint ?sd)"
    using assms(3) w by (simp add: read_file_def)
  have k: "map fst (params (model c2)) = map fst ?sd"
    and z: "map (\<lambda>p. length (snd p)) (params (model c2)) = map (\<lambda>p. length (snd p)) ?sd"
    using assms(1) by (simp_all add: same_architecture_def)
  have "set (map fst ?sd) = set (map fst (params (model c2)))" using k by simp
  moreover have "\<forall>(k, v) \<in> set (params (model c2)).
      map_option length (map_of ?sd k) = Some (length v)"
    using reload_sizes [OF assms(2) k z] .
  moreover have "map (\<lambda>(k, v). (k, the (map_of ?sd k))) (params (model c2)) = ?sd"
    using reload_params [OF assms(2) k] .
  ultimately have l: "load_state_dict (model c2) ?sd = Inr ?m"
    by (simp add: load_state_dict_def)
  have "load p c2 = (Inr (), c2\<lparr>model := ?m\<rparr>)"
    by (simp add: load_def r l)
  then show "\<exists>c2'. load p c2 = (Inr (), c2') \<and>
           params (model c2') = params (model c1) \<and>
           (\<forall>tr xs. forward R (params (model c2')) tr xs
                      = forward R (params (model c1)) tr xs) \<and>
           module_call R (model c2') xs
             = module_call R ((model c1)\<lparr>training := training (model c2)\<rparr>) xs \<and>
           training (model c2') = training (model c2) \<and>
           optimizer c2' = optimizer c2 \<and>
           disk c2' = disk c2"
    by (simp add: module_call_def)
qed

theorem store_load_roundtrip_witness:
  "same_architecture (model trained_classifier) (model fresh_classifier) \<and>
   distinct (map fst (params (model trained_classifier))) \<and>
   disk fresh_classifier = disk (store (Some (UserPath ''model.pt'')) None trained_classifier) \<and>
   (\<exists>c'. load (UserPath ''model.pt'') fresh_classifier = (Inr (), c') \<and>
      params (model c') = [(''w'', [3])] \<and>
      module_call toy_runtime (model c') [1, 2] = [3, 6] \<and>
      optimizer c' = 0)"
proof -
  have a: "same_architecture (model trained_classifier) (model fresh_classifier)"
    by (simp add: same_architecture_def trained_classifier_def fresh_classifier_def
        toy_classifier_def)
  have b: "distinct (map fst (params (model trained_classifier)))"
    by (simp add: trained_classifier_def)
  have c: "disk fresh_classifier
             = disk (store (Some (UserPath ''model.pt'')) None trained_classifier)"
    by (simp add: fresh_classifier_def)
  have d: "params (model trained_classifier) = [(''w'', [3])]"
    "optimizer fresh_classifier = 0" "training (model fresh_classifier) = True"
    by (simp_all add: trained_classifier_def fresh_classifier_def toy_classifier_def)
  obtain c' where e: "load (UserPath ''model.pt'') fresh_classifier = (Inr (), c')"
    "params (model c') = params (model trained_classifier)"
    "module_call toy_runtime (model c') [1, 2]
       = module_call toy_runtime
           ((model trained_classifier)\<lparr>training := training (model fresh_classifier)\<rparr>) [1, 2]"
    "optimizer c' = optimizer fresh_classifier"
    using store_load_roundtrip [OF a b c, of toy_runtime "[1, 2]"] by blast
  have "module_call toy_runtime
          ((model trained_classifier)\<lparr>training := training (model fresh_classifier)\<rparr>) [1, 2]
        = [3, 6]"
    by (simp add: module_call_def toy_runtime_def weight_def d)
  then show ?thesis using a b c d e by simp
qed

section \<open>evaluate on a model that predicts perfectly\<close>

lemma count_pairs_diag_off:
  "a \<noteq> b \<Longrightarrow> count_pairs a b ys ys = 0"
  by (induction ys) (auto simp add: count_pairs_def)

lemma count_pairs_diag:
  "count_pairs a a ys ys = length (filter (\<lambda>y. y = a) ys)"
  by (induction ys) (auto simp add: count_pairs_def)

lemma count_pairs_diag_pos:
  "a \<in> set ys \<Longrightarrow> 0 < count_pairs a a ys ys"
  unfolding count_pairs_diag by (induction ys) auto

lemma agree_diag: "length (filter (\<lambda>(a, b). a = b) (zip ys ys)) = length ys"
  by (induction ys) auto

lemma accuracy_perfect: "ys \<noteq> [] \<Longrightarrow> accuracy_score ys ys = Inr 1"
  by (simp add: accuracy_score_def check_consistent_length_def agree_diag)

lemma precision_perfect: "1 \<in> set ys \<Longrightarrow> precision_score ys ys = Inr 1"
  using count_pairs_diag_pos [of 1 ys]
  by (simp add: precision_score_def check_consistent_length_def ratio_or_zero_def count_pairs_diag_off)

lemma recall_perfect: "1 \<in> set ys \<Longrightarrow> recall_score ys ys = Inr 1"
  using count_pairs_diag_pos [of 1 ys]
  by (simp add: recall_score_def check_consistent_length_def ratio_or_zero_def count_pairs_diag_off)

lemma f1_perfect: "1 \<in> set ys \<Longrightarrow> f1_score ys ys = Inr 1"
  using count_pairs_diag_pos [of 1 ys]
  by (simp add: f1_score_def check_consistent_length_def ratio_or_zero_def count_pairs_diag_off)

lemma mcc_perfect:
  assumes "0 \<in> set ys" "1 \<in> set ys"
  shows "matthews_corrcoef ys ys = Inr 1"
proof -
  define tn where "tn = int (count_pairs 0 0 ys ys)"
  define tp where "tp = int (count_pairs 1 1 ys ys)"
  define cov where "cov = 2 * tn * tp"
  have pos: "0 < tn" "0 < tp"
    using count_pairs_diag_pos [OF assms(1)] count_pairs_diag_pos [OF assms(2)]
    by (simp_all add: tn_def tp_def)
  have z: "count_pairs 0 1 ys ys = 0" "count_pairs 1 0 ys ys = 0"
    by (simp_all add: count_pairs_diag_off)
  have e1: "(tn + tp) * (tn + 0 + 0 + tp) - ((tn + 0) * (tn + 0) + (0 + tp) * (0 + tp)) = cov"
    by (simp add: cov_def algebra_simps)
  have e2: "(tn + 0 + 0 + tp) * (tn + 0 + 0 + tp) - ((tn + 0) * (tn + 0) + (0 + tp) * (0 + tp))
              = cov"
    by (simp add: cov_def algebra_simps)
  have p: "0 < cov" using pos by (simp add: cov_def)
  have "matthews_corrcoef ys ys =
          Inr (if cov * cov = 0 then 0
               else real_of_int cov / sqrt (real_of_int (cov * cov)))"
    unfolding matthews_corrcoef_def Let_def check_consistent_length_def z of_nat_0
      tn_def [symmetric] tp_def [symmetric] e1 e2
    by simp
  also have "\<dots> = Inr 1"
    using p by simp
  finally show ?thesis .
qed

lemma roc_auc_single_class:
  "\<not> (0 \<in> set ys \<and> 1 \<in> set ys) \<Longrightarrow> roc_auc_score ys zs = Inl ValueError"
  by (auto simp add: roc_auc_score_def)

lemma compute_metrics_perfect:
  assumes "0 \<in> set ys" "1 \<in> set ys"
  shows "compute_metrics ys ys
           = Inr \<lparr> accuracy = 1, precision = 1, recall = 1, f1 = 1,
                   auc = roc_area ys ys, mcc = 1 \<rparr>"
proof -
  have ne: "ys \<noteq> []" using assms(1) by auto
  have u: "roc_auc_score ys ys = Inr (roc_area ys ys)"
    using assms by (simp add: roc_auc_score_def)
  show ?thesis
    unfolding compute_metrics_def accuracy_perfect [OF ne] precision_perfect [OF assms(2)]
      recall_perfect [OF assms(2)] f1_perfect [OF assms(2)] u mcc_perfect [OF assms]
    by (simp add: bind_res_def)
qed

text \<open>
  Claim C5, as stated, fails: on a test loader with one batch that holds a single
  sample of score 1, a model whose output is that score makes \<open>roc_auc_score\<close>
  raise ValueError, so evaluate returns no EvaluationStats; and the Matthews
  correlation of these labels is 0, not 1.
\<close>

theorem evaluate_perfect_single_class:
  "test_loader single_class_classifier = Some [[(1, 1)]] \<and>
   threshold (module_call toy_runtime (model single_class_classifier) (batch_to_input [(1, 1)]))
     = threshold (batch_to_score [(1, 1)]) \<and>
   fst (evaluate toy_runtime single_class_classifier) = Inl ValueError \<and>
   matthews_corrcoef [1] [1] = Inr 0"
  by (simp add: single_class_classifier_def toy_classifier_def toy_runtime_def evaluate_def
      module_call_def batch_to_input_def batch_to_score_def threshold_def weight_def
      np_concatenate_def compute_metrics_def accuracy_score_def precision_score_def
      recall_score_def f1_score_def roc_auc_score_def matthews_corrcoef_def
      check_consistent_length_def ratio_or_zero_def count_pairs_def bind_res_def Let_def)

text \<open>
  Claim C5, amended.  If the test loader is given, the thresholded outputs of the
  model (in evaluation mode) over all batches equal the thresholded ground-truth
  scores, and both labels 0 and 1 occur among the thresholded ground-truth scores,
  then evaluate returns an EvaluationStats with accuracy, precision, recall, f1 and
  mcc all equal to 1.
\<close>

theorem evaluate_perfect_model:
  assumes "test_loader c = Some loader"
    and "threshold (concat (map (\<lambda>batch. module_call R ((model c)\<lparr>training := False\<rparr>)
                                          (batch_to_input batch)) loader))
           = threshold (concat (map batch_to_score loader))"
    and "0 \<in> set (threshold (concat (map batch_to_score loader)))"
    and "1 \<in> set (threshold (concat (map batch_to_score loader)))"
  shows "\<exists>s c'. evaluate R c = (Inr s, c') \<and>
           accuracy s = 1 \<and> precision s = 1 \<and> recall s = 1 \<and> f1 s = 1 \<and> mcc s = 1"
proof -
  have ne: "loader \<noteq> []" using assms(3) by (auto simp add: threshold_def)
  let ?ys = "threshold (concat (map batch_to_score loader))"
  have m: "compute_metrics ?ys ?ys
             = Inr \<lparr> accuracy = 1, precision = 1, recall = 1, f1 = 1,
                     auc = roc_area ?ys ?ys, mcc = 1 \<rparr>"
    using assms(3,4) by (rule compute_metrics_perfect)
  have "fst (evaluate R c)
          = Inr \<lparr> accuracy = 1, precision = 1, recall = 1, f1 = 1,
                  auc = roc_area ?ys ?ys, mcc = 1 \<rparr>"
    using assms(1) ne
    by (simp add: evaluate_def Let_def np_concatenate_def bind_res_def assms(2) m)
  then show ?thesis
    by (cases "evaluate R c") auto
qed

theorem evaluate_perfect_model_witness:
  "test_loader two_class_classifier = Some [[(1, 1), (0, 0)]] \<and>
   threshold (concat (map batch_to_score [[(1, 1), (0, 0 :: real)]])) = [1, 0] \<and>
   (\<exists>s c'. evaluate toy_runtime two_class_classifier = (Inr s, c') \<and>
      accuracy s = 1 \<and> precision s = 1 \<and> recall s = 1 \<and> f1 s = 1 \<and> mcc s = 1)"
proof -
  have a: "test_loader two_class_classifier = Some [[(1, 1), (0, 0)]]"
    by (simp add: two_class_classifier_def)
  have t: "threshold (concat (map batch_to_score [[(1, 1), (0, 0 :: real)]])) = [1, 0]"
    by (simp add: threshold_def batch_to_score_def)
  have b: "threshold (concat (map (\<lambda>batch. module_call toy_runtime
                ((model two_class_classifier)\<lparr>training := False\<rparr>) (batch_to_input batch))
              [[(1, 1), (0, 0)]]))
           = threshold (concat (map batch_to_score [[(1, 1), (0, 0 :: real)]]))"
    by (simp add: threshold_def batch_to_score_def batch_to_input_def module_call_def
        toy_runtime_def two_class_classifier_def weight_def)
  have c: "0 \<in> set (threshold (concat (map batch_to_score [[(1, 1), (0, 0 :: real)]])))"
    "1 \<in> set (threshold (concat (map batch_to_score [[(1, 1), (0, 0 :: real)]])))"
    unfolding t by simp_all
  show ?thesis
    using a t evaluate_perfect_model [OF a b c] by blast
qed

section \<open>k-fold cross validation\<close>

lemma dataloader_nonempty:
  assumes "ds \<noteq> []" "0 < bs"
  shows "dataset_to_dataloader ds bs \<noteq> []"
proof -
  have "0 < length ds" using assms(1) by simp
  then have "bs \<le> length ds + bs - 1" by linarith
  then have "1 \<le> (length ds + bs - 1) div bs"
    using assms(2) by (metis div_le_mono div_self less_numeral_extra(3))
  then show ?thesis by (simp add: dataset_to_dataloader_def)
qed

lemma concat_chunks:
  "concat (map (\<lambda>i. take bs (drop (i * bs) ds)) [0..<n]) = take (n * bs) ds"
proof (induction n)
  case 0
  then show ?case by simp
next
  case (Suc n)
  have "take (n * bs) ds @ take bs (drop (n * bs) ds) = take (n * bs + bs) ds"
    by (simp add: take_add)
  then show ?case using Suc by (simp add: add.commute)
qed

lemma dataloader_concat:
  assumes "0 < bs"
  shows "concat (dataset_to_dataloader ds bs) = ds"
proof -
  let ?q = "(length ds + bs - 1) div bs"
  have "length ds + bs - 1 = ?q * bs + (length ds + bs - 1) mod bs" by simp
  moreover have "(length ds + bs - 1) mod bs < bs" using assms by simp
  ultimately have "length ds \<le> ?q * bs" using assms by linarith
  then show ?thesis by (simp add: dataset_to_dataloader_def concat_chunks)
qed

lemma split_length: "length (split_k_fold ds k) = k"
  by (simp add: split_k_fold_def)

lemma filter_enumerate_nonempty:
  assumes "j < length ds" "P (j, ds ! j)"
  shows "map snd (filter P (enumerate 0 ds)) \<noteq> []"
proof -
  have "(j, ds ! j) \<in> set (enumerate 0 ds)" using assms(1) by (simp add: in_set_enumerate_eq)
  then have "filter P (enumerate 0 ds) \<noteq> []" using assms(2) by (auto simp add: filter_empty_conv)
  then show ?thesis by simp
qed

lemma split_nonempty:
  assumes "2 \<le> k" "k \<le> length ds" "f \<in> set (split_k_fold ds k)"
  shows "train_set f \<noteq> [] \<and> val_set f \<noteq> []"
proof -
  obtain i where i: "i < k"
    and f: "f = \<lparr> train_set = map snd (filter (\<lambda>(j, x). j mod k \<noteq> i) (enumerate 0 ds)),
                  val_set = map snd (filter (\<lambda>(j, x). j mod k = i) (enumerate 0 ds)) \<rparr>"
    using assms(3) by (auto simp add: split_k_fold_def)
  have "i < length ds" using i assms(2) by simp
  moreover have "i mod k = i" using i by simp
  ultimately have v: "map snd (filter (\<lambda>(j, x). j mod k = i) (enumerate 0 ds)) \<noteq> []"
    using filter_enumerate_nonempty [of i ds "\<lambda>(j, x). j mod k = i"] by simp
  define j where "j = (if i = 0 then 1 else (0::nat))"
  have "2 \<le> length ds" using assms(1,2) by linarith
  then have "j < length ds" by (cases "i = 0") (auto simp add: j_def)
  moreover have "j mod k \<noteq> i" using assms(1) by (simp add: j_def)
  ultimately have t: "map snd (filter (\<lambda>(j, x). j mod k \<noteq> i) (enumerate 0 ds)) \<noteq> []"
    using filter_enumerate_nonempty [of j ds "\<lambda>(j, x). j mod k \<noteq> i"] by simp
  show ?thesis using v t f by simp
qed


lemma length_threshold: "length (threshold ys) = length ys"
  by (simp add: threshold_def)

lemma length_concat_map_cong:
  assumes "\<forall>b. length (f b) = length (g b)"
  shows "length (concat (map f l)) = length (concat (map g l))"
  using assms by (induction l) simp_all

lemma concat_scores: "concat (map batch_to_score l) = map snd (concat l)"
  by (induction l) (simp_all add: batch_to_score_def)

lemma compute_metrics_ok:
  assumes "length yt = length yp" "0 \<in> set yt" "1 \<in> set yt"
  shows "\<exists>s. compute_metrics yt yp = Inr s"
  using assms
  by (simp add: compute_metrics_def accuracy_score_def precision_score_def recall_score_def
      f1_score_def roc_auc_score_def matthews_corrcoef_def math_exp_overflows_def exp_overflow_bound_def check_consistent_length_def
      bind_res_def Let_def)

lemma evaluate_ok:
  assumes "test_loader c = Some loader" "loader \<noteq> []"
    and "\<forall>p tr xs. length (forward R p tr xs) = length xs"
    and "0 \<in> set (threshold (concat (map batch_to_score loader)))"
    and "1 \<in> set (threshold (concat (map batch_to_score loader)))"
  shows "\<exists>s. evaluate R c = (Inr s, c\<lparr>model := (model c)\<lparr>training := False\<rparr>\<rparr>)"
proof -
  let ?m = "(model c)\<lparr>training := False\<rparr>"
  let ?yt = "threshold (concat (map batch_to_score loader))"
  let ?yp = "threshold (concat (map (\<lambda>batch. module_call R ?m (batch_to_input batch)) loader))"
  have "\<forall>b. length (batch_to_score b) = length (module_call R ?m (batch_to_input b))"
    using assms(3) by (simp add: module_call_def batch_to_input_def batch_to_score_def)
  then have "length ?yt = length ?yp"
    unfolding length_threshold by (rule length_concat_map_cong)
  then obtain s where "compute_metrics ?yt ?yp = Inr s"
    using compute_metrics_ok [OF _ assms(4,5)] by blast
  then show ?thesis
    using assms(1,2) by (simp add: evaluate_def Let_def np_concatenate_def bind_res_def)
qed

lemma reset_properties:
  "model (reset_model_and_optimizer R c)
     = \<lparr> params = fst (build_from_config R (seed c)), training = True \<rparr>"
  "optimizer (reset_model_and_optimizer R c) = initial_optimizer_state_dict c"
  "seed (reset_model_and_optimizer R c) = snd (build_from_config R (seed c))"
  "batch_size (reset_model_and_optimizer R c) = batch_size c"
  "initial_optimizer_state_dict (reset_model_and_optimizer R c) = initial_optimizer_state_dict c"
  by (simp_all add: reset_model_and_optimizer_def optimizer_load_state_dict_def Let_def
      split: prod.splits)

text \<open>One fold whose train and validation sets are non-empty.\<close>

lemma k_fold_step:
  assumes "train_set fld \<noteq> []" "val_set fld \<noteq> []" "0 < batch_size c"
    and "bounded_criterion R"
    and "\<forall>p tr xs. length (forward R p tr xs) = length xs"
    and "0 \<in> set (threshold (map snd ts))" "1 \<in> set (threshold (map snd ts))"
  shows "\<exists>s cf st ce.
      fit R (c\<lparr>train_loader := Some (dataset_to_dataloader (train_set fld) (batch_size c)),
               val_loader := Some (dataset_to_dataloader (val_set fld) (batch_size c))\<rparr>)
        = (Inr s, cf) \<and>
      evaluate R (cf\<lparr>test_loader := Some (dataset_to_dataloader ts (batch_size c))\<rparr>)
        = (Inr st, ce) \<and>
      (\<forall>rest acc. k_fold_folds R ts (fld # rest) acc c
        = k_fold_folds R ts rest (acc @ [st]) (reset_model_and_optimizer R ce)) \<and>
      batch_size ce = batch_size c \<and> seed ce = seed c \<and>
      initial_optimizer_state_dict ce = initial_optimizer_state_dict c"
proof -
  let ?bs = "batch_size c"
  let ?c1 = "c\<lparr>train_loader := Some (dataset_to_dataloader (train_set fld) ?bs),
               val_loader := Some (dataset_to_dataloader (val_set fld) ?bs)\<rparr>"
  have ne: "dataset_to_dataloader (train_set fld) ?bs \<noteq> []"
    "dataset_to_dataloader (val_set fld) ?bs \<noteq> []"
    using assms(1,2,3) by (simp_all add: dataloader_nonempty)
  have "\<exists>s. fst (fit R ?c1) = Inr s"
    using fit_returns [of ?c1 _ _ R] ne assms(4) by simp
  then obtain s cf where f: "fit R ?c1 = (Inr s, cf)"
    by (cases "fit R ?c1") auto
  have "same_settings ?c1 cf" using fit_settings [of ?c1 R] f by simp
  then have keep: "batch_size cf = ?bs" "seed cf = seed c"
    "initial_optimizer_state_dict cf = initial_optimizer_state_dict c"
    by (simp_all add: same_settings_def)
  let ?loader = "dataset_to_dataloader ts ?bs"
  let ?c3 = "cf\<lparr>test_loader := Some ?loader\<rparr>"
  have sc: "concat (map batch_to_score ?loader) = map snd ts"
  proof -
    have "concat (map batch_to_score ?loader) = map snd (concat ?loader)"
      by (rule concat_scores)
    then show ?thesis using assms(3) by (simp add: dataloader_concat)
  qed
  have lne: "?loader \<noteq> []"
  proof
    assume "?loader = []"
    then have "concat (map batch_to_score ?loader) = []" by simp
    then have "map snd ts = []" using sc by simp
    then show False using assms(6) by (simp add: threshold_def)
  qed
  obtain st where e: "evaluate R ?c3 = (Inr st, ?c3\<lparr>model := (model ?c3)\<lparr>training := False\<rparr>\<rparr>)"
    using evaluate_ok [of ?c3 ?loader R] lne assms(5,6,7) sc by auto
  let ?ce = "?c3\<lparr>model := (model ?c3)\<lparr>training := False\<rparr>\<rparr>"
  have "\<forall>rest acc. k_fold_folds R ts (fld # rest) acc c
          = k_fold_folds R ts rest (acc @ [st]) (reset_model_and_optimizer R ?ce)"
    using f e keep(1) by (simp add: Let_def)
  moreover have "batch_size ?ce = ?bs" "seed ?ce = seed c"
    "initial_optimizer_state_dict ?ce = initial_optimizer_state_dict c"
    using keep by simp_all
  ultimately show ?thesis using f e by blast
qed


lemma k_fold_folds_ok:
  assumes "\<forall>f \<in> set fs. train_set f \<noteq> [] \<and> val_set f \<noteq> []" "0 < batch_size c"
    and "bounded_criterion R"
    and "\<forall>p tr xs. length (forward R p tr xs) = length xs"
    and "0 \<in> set (threshold (map snd ts))" "1 \<in> set (threshold (map snd ts))"
  shows "\<exists>acc' c'. k_fold_folds R ts fs acc c = (Inr acc', c') \<and>
           length acc' = length acc + length fs \<and> take (length acc) acc' = acc \<and>
           batch_size c' = batch_size c \<and>
           initial_optimizer_state_dict c' = initial_optimizer_state_dict c"
  using assms(1,2)
proof (induction fs arbitrary: acc c)
  case Nil
  then show ?case by simp
next
  case (Cons fld fs)
  have ne: "train_set fld \<noteq> []" "val_set fld \<noteq> []" using Cons.prems(1) by simp_all
  obtain st ce where
    step: "k_fold_folds R ts (fld # fs) acc c
             = k_fold_folds R ts fs (acc @ [st]) (reset_model_and_optimizer R ce)"
    and keep: "batch_size ce = batch_size c"
      "initial_optimizer_state_dict ce = initial_optimizer_state_dict c"
    using k_fold_step [OF ne Cons.prems(2) assms(3,4,5,6)] by blast
  let ?c = "reset_model_and_optimizer R ce"
  have k2: "batch_size ?c = batch_size c"
    "initial_optimizer_state_dict ?c = initial_optimizer_state_dict c"
    using keep by (simp_all add: reset_properties)
  have "\<forall>f \<in> set fs. train_set f \<noteq> [] \<and> val_set f \<noteq> []" using Cons.prems(1) by simp
  moreover have "0 < batch_size ?c" using k2(1) Cons.prems(2) by simp
  ultimately obtain acc' c' where ih:
    "k_fold_folds R ts fs (acc @ [st]) ?c = (Inr acc', c')"
    "length acc' = length (acc @ [st]) + length fs"
    "take (length (acc @ [st])) acc' = acc @ [st]"
    "batch_size c' = batch_size ?c"
    "initial_optimizer_state_dict c' = initial_optimizer_state_dict ?c"
    using Cons.IH [of ?c "acc @ [st]"] by blast
  have "take (length acc) acc' = take (length acc) (take (length (acc @ [st])) acc')"
    by (simp add: min_def)
  also have "\<dots> = acc" unfolding ih(3) by simp
  finally have pre: "take (length acc) acc' = acc" .
  show ?case
    using step ih(1,2,4,5) k2 pre by simp
qed

lemma k_fold_folds_append:
  "k_fold_folds R ts (fs @ gs) acc c =
     (case k_fold_folds R ts fs acc c of
        (Inl e, c1) \<Rightarrow> (Inl e, c1)
      | (Inr acc1, c1) \<Rightarrow> k_fold_folds R ts gs acc1 c1)"
proof (induction fs arbitrary: acc c)
  case Nil
  then show ?case by simp
next
  case (Cons fld fs)
  show ?case
    by (simp add: Let_def Cons.IH split: prod.splits sum.splits)
qed


text \<open>
  Claim C6, as stated, fails: with both datasets given, \<open>k_fold_cv(0)\<close> raises
  ValueError (there is no fold, and KFoldStats cannot be built from an empty list),
  and \<open>k_fold_cv(2)\<close> raises ValueError when the test dataset holds samples of one
  class only (the evaluation of the first fold fails in \<open>roc_auc_score\<close>).
\<close>

theorem k_fold_cv_raises:
  "train_dataset kfold_classifier \<noteq> None \<and> test_dataset kfold_classifier \<noteq> None \<and>
   fst (k_fold_cv toy_runtime kfold_classifier 0) = Inl ValueError \<and>
   fst (k_fold_cv toy_runtime (kfold_classifier\<lparr>test_dataset := Some [(1, 1)]\<rparr>) 2)
     = Inl ValueError"
  by (simp add: k_fold_cv_def split_k_fold_def dataset_to_dataloader_def
      kfold_classifier_def toy_classifier_def toy_runtime_def fit_def fit_epoch_def
      val_epoch_def fit_batch_def val_batch_def module_call_def batch_to_input_def
      batch_to_score_def store_def below_best_def weight_def mse_loss_def
      TrainStats_init_def TrainStats_classdef_def TrainStats_to_json_def py_int_def
      evaluate_def np_concatenate_def threshold_def compute_metrics_def accuracy_score_def
      precision_score_def recall_score_def f1_score_def roc_auc_score_def
      matthews_corrcoef_def math_exp_overflows_def exp_overflow_bound_def check_consistent_length_def ratio_or_zero_def count_pairs_def
      bind_res_def KFoldStats_init_def metric_summary_def reset_model_and_optimizer_def
      optimizer_load_state_dict_def upt_rec enumerate_simps power2_eq_square Let_def)

text \<open>
  Claim C6, amended.  Let the train and test datasets be given, let the number of
  folds \<open>k\<close> be at least 2 and at most the size of the training dataset (so that
  every fold has a non-empty train and validation set), the batch size positive, the
  model yield one output per sample, the criterion be bounded (so that the log line of
  an epoch does not overflow), and both labels 0 and 1 occur among the thresholded
  scores of the test dataset.  Then \<open>k_fold_cv(k)\<close> returns a KFoldStats
  with exactly \<open>k\<close> entries in \<open>fold_stats\<close>.  Entry \<open>j\<close> is the result of
  evaluate after fit on fold \<open>j\<close>, started from the classifier as the first \<open>j\<close>
  folds left it; after this evaluation the model is a fresh build (drawn from the
  random state) in training mode and the optimizer has the initial optimizer state,
  and so the next fold, and at the end the caller, finds them.
\<close>

theorem k_fold_cv_returns_k_stats:
  assumes "train_dataset c = Some ds" "test_dataset c = Some ts"
    and "2 \<le> k" "k \<le> length ds" "0 < batch_size c"
    and "\<forall>p tr xs. length (forward R p tr xs) = length xs"
    and "0 \<in> set (threshold (map snd ts))" "1 \<in> set (threshold (map snd ts))"
    and "bounded_criterion R"
  shows "\<exists>stats c'. k_fold_cv R c k = (Inr stats, c') \<and>
      length (fold_stats stats) = k \<and>
      (\<exists>s. model c' = \<lparr> params = fst (build_from_config R s), training = True \<rparr>) \<and>
      optimizer c' = initial_optimizer_state_dict c \<and>
      (\<forall>j < k. \<exists>cj s cf ce.
         k_fold_folds R ts (take j (split_k_fold ds k)) [] c
           = (Inr (take j (fold_stats stats)), cj) \<and>
         fit R (cj\<lparr>train_loader := Some (dataset_to_dataloader
                                           (train_set (split_k_fold ds k ! j)) (batch_size cj)),
                  val_loader := Some (dataset_to_dataloader
                                         (val_set (split_k_fold ds k ! j)) (batch_size cj))\<rparr>)
           = (Inr s, cf) \<and>
         evaluate R (cf\<lparr>test_loader := Some (dataset_to_dataloader ts (batch_size cj))\<rparr>)
           = (Inr (fold_stats stats ! j), ce) \<and>
         k_fold_folds R ts (take (Suc j) (split_k_fold ds k)) [] c
           = (Inr (take (Suc j) (fold_stats stats)), reset_model_and_optimizer R ce) \<and>
         model (reset_model_and_optimizer R ce)
           = \<lparr> params = fst (build_from_config R (seed cj)), training = True \<rparr> \<and>
         optimizer (reset_model_and_optimizer R ce) = initial_optimizer_state_dict c)"
proof -
  let ?fs = "split_k_fold ds k"
  have len: "length ?fs = k" by (rule split_length)
  have ne: "\<forall>f \<in> set ?fs. train_set f \<noteq> [] \<and> val_set f \<noteq> []"
    using split_nonempty [OF assms(3,4)] by blast
  obtain accF cF where loop: "k_fold_folds R ts ?fs [] c = (Inr accF, cF)"
    and lenF: "length accF = k"
    using k_fold_folds_ok [OF ne assms(5,9,6,7,8), of "[]"] len by auto
  have "accF \<noteq> []" using lenF assms(3) by auto
  then obtain stats where st: "KFoldStats_init accF = Inr stats" "fold_stats stats = accF"
    using KFoldStats_init_reduces [of accF] by blast
  let ?c' = "cF\<lparr>disk := disk cF @ [(KFoldStatsPath, KFoldStatsJson stats)]\<rparr>"
  have run: "k_fold_cv R c k = (Inr stats, ?c')"
    using assms(1,2) loop st(1) by (simp add: k_fold_cv_def)
  have per_fold: "\<exists>cj s cf ce.
         k_fold_folds R ts (take j ?fs) [] c = (Inr (take j accF), cj) \<and>
         fit R (cj\<lparr>train_loader := Some (dataset_to_dataloader
                                           (train_set (?fs ! j)) (batch_size cj)),
                  val_loader := Some (dataset_to_dataloader
                                         (val_set (?fs ! j)) (batch_size cj))\<rparr>)
           = (Inr s, cf) \<and>
         evaluate R (cf\<lparr>test_loader := Some (dataset_to_dataloader ts (batch_size cj))\<rparr>)
           = (Inr (accF ! j), ce) \<and>
         k_fold_folds R ts (take (Suc j) ?fs) [] c
           = (Inr (take (Suc j) accF), reset_model_and_optimizer R ce) \<and>
         model (reset_model_and_optimizer R ce)
           = \<lparr> params = fst (build_from_config R (seed cj)), training = True \<rparr> \<and>
         optimizer (reset_model_and_optimizer R ce) = initial_optimizer_state_dict c \<and>
         (Suc j = k \<longrightarrow> cF = reset_model_and_optimizer R ce)"
    if j: "j < k" for j
  proof -
    have nej: "\<forall>f \<in> set (take j ?fs). train_set f \<noteq> [] \<and> val_set f \<noteq> []"
      using ne by (meson in_set_takeD)
    obtain accj cj where pj: "k_fold_folds R ts (take j ?fs) [] c = (Inr accj, cj)"
      and lj: "length accj = j"
      and kj: "batch_size cj = batch_size c"
        "initial_optimizer_state_dict cj = initial_optimizer_state_dict c"
      using k_fold_folds_ok [OF nej assms(5,9,6,7,8), of "[]"] j len by auto
    have fj: "train_set (?fs ! j) \<noteq> []" "val_set (?fs ! j) \<noteq> []"
      using ne j len by simp_all
    have bj: "0 < batch_size cj" using kj(1) assms(5) by simp
    obtain s cf stj ce where
      sf: "fit R (cj\<lparr>train_loader := Some (dataset_to_dataloader
                                           (train_set (?fs ! j)) (batch_size cj)),
                  val_loader := Some (dataset_to_dataloader
                                         (val_set (?fs ! j)) (batch_size cj))\<rparr>)
           = (Inr s, cf)"
      and se: "evaluate R (cf\<lparr>test_loader := Some (dataset_to_dataloader ts (batch_size cj))\<rparr>)
           = (Inr stj, ce)"
      and sk: "\<And>rest. k_fold_folds R ts (?fs ! j # rest) accj cj
             = k_fold_folds R ts rest (accj @ [stj]) (reset_model_and_optimizer R ce)"
      and ke: "seed ce = seed cj"
        "initial_optimizer_state_dict ce = initial_optimizer_state_dict cj"
        "batch_size ce = batch_size cj"
      using k_fold_step [OF fj bj assms(9,6,7,8)] by blast
    have split1: "take (Suc j) ?fs = take j ?fs @ [?fs ! j]"
      using j len by (simp add: take_Suc_conv_app_nth)
    have pj1: "k_fold_folds R ts (take (Suc j) ?fs) [] c
                 = (Inr (accj @ [stj]), reset_model_and_optimizer R ce)"
      unfolding split1 k_fold_folds_append pj using sk [of "[]"] by simp
    have split2: "?fs = take (Suc j) ?fs @ drop (Suc j) ?fs" by simp
    have ned: "\<forall>f \<in> set (drop (Suc j) ?fs). train_set f \<noteq> [] \<and> val_set f \<noteq> []"
      using ne by (meson in_set_dropD)
    have br: "0 < batch_size (reset_model_and_optimizer R ce)"
      using ke(3) bj by (simp add: reset_properties)
    obtain accR cR where
      rr: "k_fold_folds R ts (drop (Suc j) ?fs) (accj @ [stj]) (reset_model_and_optimizer R ce)
             = (Inr accR, cR)"
      and pre: "take (length (accj @ [stj])) accR = accj @ [stj]"
      using k_fold_folds_ok [OF ned br assms(9,6,7,8), of "accj @ [stj]"] by blast
    have "k_fold_folds R ts ?fs [] c = (Inr accR, cR)"
      using k_fold_folds_append [of R ts "take (Suc j) ?fs" "drop (Suc j) ?fs" "[]" c] pj1 rr
      by simp
    then have eqF: "accR = accF" "cR = cF" using loop by simp_all
    have t1: "take (Suc j) accF = accj @ [stj]" using pre eqF(1) lj by simp
    then have t0: "take j accF = accj"
      using lj by (metis append_eq_conv_conj take_take min.absorb1 le_add1 plus_1_eq_Suc add.commute)
    have tj: "accF ! j = stj"
      using t1 lj lenF j by (metis lessI nth_append_length nth_take)
    have last: "cF = reset_model_and_optimizer R ce" if "Suc j = k"
    proof -
      have "drop (Suc j) ?fs = []" using that len by simp
      then show ?thesis using rr eqF(2) by simp
    qed
    have "model (reset_model_and_optimizer R ce)
            = \<lparr> params = fst (build_from_config R (seed cj)), training = True \<rparr>"
      using ke(1) by (simp add: reset_properties)
    moreover have "optimizer (reset_model_and_optimizer R ce) = initial_optimizer_state_dict c"
      using ke(2) kj(2) by (simp add: reset_properties)
    ultimately show ?thesis
      using pj sf se pj1 t0 t1 tj last
      by (intro exI [of _ cj] exI [of _ s] exI [of _ cf] exI [of _ ce]) simp
  qed
  have kpos: "k - 1 < k" "Suc (k - 1) = k" using assms(3) by simp_all
  obtain cj s cf ce where fin1:
    "k_fold_folds R ts (take (k - 1) ?fs) [] c = (Inr (take (k - 1) accF), cj)"
    and fin0:
    "model (reset_model_and_optimizer R ce)
       = \<lparr> params = fst (build_from_config R (seed cj)), training = True \<rparr>"
    "optimizer (reset_model_and_optimizer R ce) = initial_optimizer_state_dict c"
    "Suc (k - 1) = k \<longrightarrow> cF = reset_model_and_optimizer R ce"
    using per_fold [OF kpos(1)] by (elim exE conjE) (rule that, assumption+)
  have fin: "cF = reset_model_and_optimizer R ce"
    "model (reset_model_and_optimizer R ce)
       = \<lparr> params = fst (build_from_config R (seed cj)), training = True \<rparr>"
    "optimizer (reset_model_and_optimizer R ce) = initial_optimizer_state_dict c"
    using fin0 kpos(2) by simp_all
  have "length (fold_stats stats) = k" using st(2) lenF by simp
  moreover have "\<exists>s. model ?c' = \<lparr> params = fst (build_from_config R s), training = True \<rparr>"
    using fin(1,2) by auto
  moreover have "optimizer ?c' = initial_optimizer_state_dict c" using fin(1,3) by simp
  moreover have "\<forall>j < k. \<exists>cj s cf ce.
         k_fold_folds R ts (take j ?fs) [] c = (Inr (take j (fold_stats stats)), cj) \<and>
         fit R (cj\<lparr>train_loader := Some (dataset_to_dataloader
                                           (train_set (?fs ! j)) (batch_size cj)),
                  val_loader := Some (dataset_to_dataloader
                                         (val_set (?fs ! j)) (batch_size cj))\<rparr>)
           = (Inr s, cf) \<and>
         evaluate R (cf\<lparr>test_loader := Some (dataset_to_dataloader ts (batch_size cj))\<rparr>)
           = (Inr (fold_stats stats ! j), ce) \<and>
         k_fold_folds R ts (take (Suc j) ?fs) [] c
           = (Inr (take (Suc j) (fold_stats stats)), reset_model_and_optimizer R ce) \<and>
         model (reset_model_and_optimizer R ce)
           = \<lparr> params = fst (build_from_config R (seed cj)), training = True \<rparr> \<and>
         optimizer (reset_model_and_optimizer R ce) = initial_optimizer_state_dict c"
    unfolding st(2)
  proof (intro allI impI)
    fix j
    assume j: "j < k"
    obtain cj s cf ce where p:
      "k_fold_folds R ts (take j ?fs) [] c = (Inr (take j accF), cj)"
      "fit R (cj\<lparr>train_loader := Some (dataset_to_dataloader
                                           (train_set (?fs ! j)) (batch_size cj)),
                  val_loader := Some (dataset_to_dataloader
                                         (val_set (?fs ! j)) (batch_size cj))\<rparr>)
           = (Inr s, cf)"
      "evaluate R (cf\<lparr>test_loader := Some (dataset_to_dataloader ts (batch_size cj))\<rparr>)
           = (Inr (accF ! j), ce)"
      "k_fold_folds R ts (take (Suc j) ?fs) [] c
           = (Inr (take (Suc j) accF), reset_model_and_optimizer R ce)"
      "model (reset_model_and_optimizer R ce)
           = \<lparr> params = fst (build_from_config R (seed cj)), training = True \<rparr>"
      "optimizer (reset_model_and_optimizer R ce) = initial_optimizer_state_dict c"
      using per_fold [OF j] by (elim exE conjE) (rule that, assumption+)
    show "\<exists>cj s cf ce.
         k_fold_folds R ts (take j ?fs) [] c = (Inr (take j accF), cj) \<and>
         fit R (cj\<lparr>train_loader := Some (dataset_to_dataloader
                                           (train_set (?fs ! j)) (batch_size cj)),
                  val_loader := Some (dataset_to_dataloader
                                         (val_set (?fs ! j)) (batch_size cj))\<rparr>)
           = (Inr s, cf) \<and>
         evaluate R (cf\<lparr>test_loader := Some (dataset_to_dataloader ts (batch_size cj))\<rparr>)
           = (Inr (accF ! j), ce) \<and>
         k_fold_folds R ts (take (Suc j) ?fs) [] c
           = (Inr (take (Suc j) accF), reset_model_and_optimizer R ce) \<and>
         model (reset_model_and_optimizer R ce)
           = \<lparr> params = fst (build_from_config R (seed cj)), training = True \<rparr> \<and>
         optimizer (reset_model_and_optimizer R ce) = initial_optimizer_state_dict c"
      using p by (intro exI [of _ cj] exI [of _ s] exI [of _ cf] exI [of _ ce] conjI)
  qed
  ultimately show ?thesis
    using run by (intro exI [of _ stats] exI [of _ ?c'] conjI)
qed


theorem k_fold_cv_returns_k_stats_witness:
  "train_dataset kfold_classifier = Some [(1, 5 / 2), (1, 5 / 2)] \<and>
   test_dataset kfold_classifier = Some [(1, 0), (1, 1)] \<and>
   2 \<le> length [(1 :: real, 5 / 2 :: real), (1, 5 / 2)] \<and>
   0 < batch_size kfold_classifier \<and>
   threshold (map snd [(1 :: real, 0 :: real), (1, 1)]) = [0, 1] \<and>
   (\<exists>stats c'. k_fold_cv toy_runtime kfold_classifier 2 = (Inr stats, c') \<and>
      length (fold_stats stats) = 2 \<and>
      optimizer c' = initial_optimizer_state_dict kfold_classifier)"
proof -
  have a: "train_dataset kfold_classifier = Some [(1, 5 / 2), (1, 5 / 2)]"
    "test_dataset kfold_classifier = Some [(1, 0), (1, 1)]"
    "0 < batch_size kfold_classifier"
    by (simp_all add: kfold_classifier_def toy_classifier_def)
  have b: "(2 :: nat) \<le> 2" "2 \<le> length [(1 :: real, 5 / 2 :: real), (1, 5 / 2)]"
    by simp_all
  have f: "\<forall>p tr xs. length (forward toy_runtime p tr xs) = length xs"
    by (simp add: toy_runtime_def)
  have t: "threshold (map snd [(1 :: real, 0 :: real), (1, 1)]) = [0, 1]"
    by (simp add: threshold_def)
  have l: "0 \<in> set (threshold (map snd [(1 :: real, 0 :: real), (1, 1)]))"
    "1 \<in> set (threshold (map snd [(1 :: real, 0 :: real), (1, 1)]))"
    unfolding t by simp_all
  obtain stats c' where r: "k_fold_cv toy_runtime kfold_classifier 2 = (Inr stats, c')"
    "length (fold_stats stats) = 2"
    "optimizer c' = initial_optimizer_state_dict kfold_classifier"
    using k_fold_cv_returns_k_stats [OF a(1,2) b a(3) f l toy_bounded]
    by (elim exE conjE) (rule that, assumption+)
  show ?thesis
    using a b(2) t r by (intro conjI exI [of _ stats] exI [of _ c'])
qed

end
